theory Spec2Isabelle
  imports Complex_Main
begin

section \<open>JavaScript strings and values\<close>

text \<open>
  A JavaScript string is a sequence of UTF-16 code units. \<open>str\<close> writes one from its
  ASCII spelling.
\<close>

type_synonym jsstring = "nat list"

definition str :: "string \<Rightarrow> jsstring" where
  "str s = map of_char s"

text \<open>
  \<^verbatim>\<open>String.prototype.toLowerCase\<close> is Unicode's lower-casing. On a string of ASCII code
  units it moves the letters A to Z to a to z and leaves every other unit. On a string
  with a unit outside ASCII it follows the Unicode tables of the JavaScript engine,
  which are outside the source: they are the parameter \<open>ul\<close> of the model (the tables
  send, for one, the Kelvin sign U+212A to k).
\<close>

definition toLowerCase_ascii :: "nat \<Rightarrow> nat" where
  "toLowerCase_ascii c = (if 65 \<le> c \<and> c \<le> 90 then c + 32 else c)"

definition toLowerCase :: "(jsstring \<Rightarrow> jsstring) \<Rightarrow> jsstring \<Rightarrow> jsstring" where
  "toLowerCase ul s =
     (if list_all (\<lambda>c. c < 128) s then map toLowerCase_ascii s else ul s)"

text \<open>
  \<^verbatim>\<open>s.includes(t)\<close> on strings: \<open>t\<close> occurs in \<open>s\<close> as a contiguous substring.
  The empty string occurs in every string, which is why the source tests
  \<^verbatim>\<open>!== ""\<close> before it.
\<close>

fun includes_str :: "jsstring \<Rightarrow> jsstring \<Rightarrow> bool" where
  "includes_str [] t = (t = [])"
| "includes_str (c # s) t = (take (length t) (c # s) = t \<or> includes_str s t)"

text \<open>
  \<^verbatim>\<open>s[k]\<close> on a string: the one-character string at index \<open>k\<close>, or
  \<^verbatim>\<open>undefined\<close> (\<open>None\<close>) outside the string.
\<close>

definition index_str :: "jsstring \<Rightarrow> int \<Rightarrow> jsstring option" where
  "index_str s k =
     (if 0 \<le> k \<and> k < int (length s) then Some [s ! nat k] else None)"

text \<open>
  String coercion of a value that may be \<^verbatim>\<open>undefined\<close>, as the canvas does with the
  text it is given.
\<close>

definition coerce :: "jsstring option \<Rightarrow> jsstring" where
  "coerce v = (case v of None \<Rightarrow> str ''undefined'' | Some s \<Rightarrow> s)"

text \<open>The decimal text of an integer number, as a template literal prints it.\<close>

fun digits :: "nat \<Rightarrow> jsstring" where
  "digits n =
     (if n < 10 then [48 + n]
      else digits (n div 10) @ [48 + n mod 10])"

declare digits.simps [simp del]

definition number_toString :: "int \<Rightarrow> jsstring" where
  "number_toString k =
     (if k < 0 then 45 # digits (nat (- k)) else digits (nat k))"

text \<open>
  \<^verbatim>\<open>v + n\<close> for a number \<open>n\<close> and a value \<open>v\<close> that is a string or \<^verbatim>\<open>undefined\<close>: a
  string is joined with the text of the number; \<^verbatim>\<open>undefined + n\<close> is numeric addition
  and gives \<^verbatim>\<open>NaN\<close>.
\<close>

datatype strnum = Text jsstring | NaN

definition plus_number :: "jsstring option \<Rightarrow> int \<Rightarrow> strnum" where
  "plus_number v n = (case v of None \<Rightarrow> NaN | Some s \<Rightarrow> Text (s @ number_toString n))"

text \<open>
  The values a caller can store in the highlight map, with JavaScript's truthiness:
  \<^verbatim>\<open>undefined\<close>, \<^verbatim>\<open>null\<close>, \<^verbatim>\<open>false\<close>, \<^verbatim>\<open>0\<close>, \<^verbatim>\<open>NaN\<close> and
  \<^verbatim>\<open>""\<close> are falsy, everything else is truthy.
\<close>

datatype jsval =
    JUndefined
  | JNull
  | JBoolean bool
  | JNumber rat
  | JNaN
  | JString jsstring
  | JObject

fun truthy :: "jsval \<Rightarrow> bool" where
  "truthy JUndefined = False"
| "truthy JNull = False"
| "truthy (JBoolean b) = b"
| "truthy (JNumber n) = (n \<noteq> 0)"
| "truthy JNaN = False"
| "truthy (JString s) = (s \<noteq> [])"
| "truthy JObject = True"

text \<open>
  An object is its own properties. An ordinary object (an object literal, the result
  of \<^verbatim>\<open>JSON.parse\<close>) inherits from \<^verbatim>\<open>Object.prototype\<close>, whose properties are functions
  and, under \<^verbatim>\<open>__proto__\<close>, an object: all truthy and none a string. \<^verbatim>\<open>k in o\<close> and
  \<^verbatim>\<open>o[k]\<close> look at the own properties first and at the inherited ones after.
\<close>

type_synonym jsobject = "jsstring \<rightharpoonup> jsval"

definition Object_prototype :: jsobject where
  "Object_prototype =
     map_of (map (\<lambda>k. (str k, JObject))
       [''constructor'', ''__defineGetter__'', ''__defineSetter__'', ''hasOwnProperty'',
        ''__lookupGetter__'', ''__lookupSetter__'', ''isPrototypeOf'',
        ''propertyIsEnumerable'', ''toString'', ''valueOf'', ''__proto__'',
        ''toLocaleString''])"

definition get_property :: "jsobject \<Rightarrow> jsstring \<Rightarrow> jsval option" where
  "get_property obj k = (case obj k of None \<Rightarrow> Object_prototype k | Some v \<Rightarrow> Some v)"

section \<open>Configuration module\<close>

text \<open>
  Modelled from the spec: \<^verbatim>\<open>config/index\<close> is required by the source but is not
  among the source files. The spec names the files a to h with column 0 = file a, the
  six piece kinds, and a "white" alphabet of upper-case letters against lower-case
  letters for the other side (its grid scenario uses \<^verbatim>\<open>rnbqkp\<close> and \<^verbatim>\<open>RNBQKP\<close>).
\<close>

definition cols :: jsstring where
  "cols = str ''abcdefgh''"

definition white :: jsstring where
  "white = str ''PBNRQK''"

definition black :: jsstring where
  "black = str ''pbnrqk''"

text \<open>
  The remaining exports of \<^verbatim>\<open>config/index\<close> (the defaults and the sprite file-name
  table) have values the spec does not give; they are a parameter of the model.
\<close>

record config =
  defaultSize :: rat
  defaultLight :: jsstring
  defaultHighlight :: jsstring
  defaultDark :: jsstring
  defaultStyle :: jsstring
  filePaths :: "jsstring \<Rightarrow> jsstring option"

section \<open>The rules engine\<close>

text \<open>
  Modelled from the spec: the rules engine (\<^verbatim>\<open>chess.js\<close>) is a dependency outside the
  source files. Its position is a board from squares to pieces, with the per-square
  query and the clear/put primitive of the spec's external interfaces; a square is
  named by the value the source passes.
\<close>

record piece =
  ptype :: jsstring
  color :: jsstring

type_synonym position = "strnum \<rightharpoonup> piece"

definition chess_clear :: position where
  "chess_clear = Map.empty"

definition chess_put :: "piece \<Rightarrow> strnum \<Rightarrow> position \<Rightarrow> position" where
  "chess_put p square b = b(square \<mapsto> p)"

definition chess_get :: "position \<Rightarrow> strnum \<Rightarrow> piece option" where
  "chess_get b square = b square"

text \<open>
  Parsing belongs to the engine alone. \<^verbatim>\<open>load\<close> and \<^verbatim>\<open>load_pgn\<close> are methods of a
  mutable object that answer pass or fail: each is a function from the text and the
  position before the call to the answer and the position after it. \<open>new_chess\<close> is
  the position of a fresh engine.
\<close>

record engine =
  new_chess :: position
  load :: "jsstring \<Rightarrow> position \<Rightarrow> bool \<times> position"
  load_pgn :: "jsstring \<Rightarrow> position \<Rightarrow> bool \<times> position"

section \<open>The renderer object\<close>

record options =
  opt_size :: "rat option"
  opt_light :: "jsstring option"
  opt_dark :: "jsstring option"
  opt_highlight :: "jsstring option"
  opt_style :: "jsstring option"
  opt_drawLabels :: "bool option"
  opt_labelLight :: "jsstring option"
  opt_labelDark :: "jsstring option"
  opt_flipped :: "bool option"

record renderer =
  chess :: position
  size_px :: rat
  light :: jsstring
  dark :: jsstring
  highlight :: jsstring
  style :: jsstring
  drawLabels :: bool
  labelLight :: jsstring
  labelDark :: jsstring
  flipped :: bool
  highlightedSquares :: "jsobject option"
  ready :: bool

text \<open>\<^verbatim>\<open>a || b\<close> on an optional string or number: a missing or falsy \<open>a\<close> gives \<open>b\<close>.\<close>

definition or_string :: "jsstring option \<Rightarrow> jsstring \<Rightarrow> jsstring" where
  "or_string a b = (case a of None \<Rightarrow> b | Some s \<Rightarrow> if s = [] then b else s)"

definition or_number :: "rat option \<Rightarrow> rat \<Rightarrow> rat" where
  "or_number a b = (case a of None \<Rightarrow> b | Some n \<Rightarrow> if n = 0 then b else n)"

definition ChessImageGenerator :: "config \<Rightarrow> engine \<Rightarrow> options \<Rightarrow> renderer" where
  "ChessImageGenerator cfg eng opts =
     (let light' = or_string (opt_light opts) (defaultLight cfg);
          dark' = or_string (opt_dark opts) (defaultDark cfg)
      in \<lparr> chess = new_chess eng,
           size_px = or_number (opt_size opts) (defaultSize cfg),
           light = light',
           dark = dark',
           highlight = or_string (opt_highlight opts) (defaultHighlight cfg),
           style = or_string (opt_style opts) (defaultStyle cfg),
           drawLabels = (opt_drawLabels opts \<noteq> Some False),
           labelLight = or_string (opt_labelLight opts) dark',
           labelDark = or_string (opt_labelDark opts) light',
           flipped = (opt_flipped opts \<noteq> Some True),
           highlightedSquares = Some Map.empty,
           ready = False \<rparr>)"

section \<open>Orientation transform\<close>

text \<open>The \<^verbatim>\<open>row\<close> and \<^verbatim>\<open>col\<close> closures of \<^verbatim>\<open>generateBuffer\<close>.\<close>

definition row :: "renderer \<Rightarrow> int \<Rightarrow> int" where
  "row r rr = (if flipped r then 7 - rr + 1 else rr + 1)"

definition col :: "renderer \<Rightarrow> int \<Rightarrow> jsstring option" where
  "col r c = (if flipped r then index_str cols (7 - c) else index_str cols c)"

text \<open>The square \<^verbatim>\<open>col(j) + row(i)\<close> looked up for cell \<open>(i, j)\<close>.\<close>

definition square_of :: "renderer \<Rightarrow> nat \<Rightarrow> nat \<Rightarrow> strnum" where
  "square_of r i j = plus_number (col r (int j)) (row r (int i))"

text \<open>
  The other variant of the file (\<^verbatim>\<open>src/chess-image-generator.js\<close>) keeps \<^verbatim>\<open>col\<close> as
  an index and reads the letter at the use site, \<^verbatim>\<open>cols[col(j)]\<close>.
\<close>

definition col_index :: "renderer \<Rightarrow> int \<Rightarrow> int" where
  "col_index r c = (if flipped r then 7 - c else c)"

definition square_of_indexed :: "renderer \<Rightarrow> nat \<Rightarrow> nat \<Rightarrow> strnum" where
  "square_of_indexed r i j =
     plus_number (index_str cols (col_index r (int j))) (row r (int i))"

section \<open>Position loading\<close>

text \<open>
  The errors the source raises, by the spec's names: \<open>NotReady\<close> is
  \<^verbatim>\<open>Error("Load a position first")\<close>, \<open>InvalidNotation\<close> is the error of
  \<^verbatim>\<open>loadPGN\<close> and \<^verbatim>\<open>loadFEN\<close>, \<open>AssetNotFound\<close> a rejected \<^verbatim>\<open>loadImage\<close>.
\<close>

datatype error = NotReady | InvalidNotation | AssetNotFound jsstring

text \<open>
  A method that throws leaves the object as it was at the throw, so a loader returns
  the error thrown (if any) together with the renderer after the call.
\<close>

definition loadPGN :: "engine \<Rightarrow> jsstring \<Rightarrow> renderer \<Rightarrow> error option \<times> renderer" where
  "loadPGN eng pgn r =
     (let (ok, b) = load_pgn eng pgn (chess r);
          r' = r\<lparr>chess := b\<rparr>
      in if \<not> ok then (Some InvalidNotation, r')
         else (None, r'\<lparr>ready := True\<rparr>))"

definition loadFEN :: "engine \<Rightarrow> jsstring \<Rightarrow> renderer \<Rightarrow> error option \<times> renderer" where
  "loadFEN eng fen r =
     (let (ok, b) = load eng fen (chess r);
          r' = r\<lparr>chess := b\<rparr>
      in if \<not> ok then (Some InvalidNotation, r')
         else (None, r'\<lparr>ready := True\<rparr>))"

text \<open>The inner and the outer loop of \<^verbatim>\<open>loadArray\<close>, over column \<open>j\<close> and row \<open>i\<close>.\<close>

function loadArray_cols ::
  "(jsstring \<Rightarrow> jsstring) \<Rightarrow> jsstring list \<Rightarrow> nat \<Rightarrow> nat \<Rightarrow> position \<Rightarrow> position"
  where
  "loadArray_cols ul arow i j b =
     (if j < length arow then
        loadArray_cols ul arow i (j + 1)
          (if arow ! j \<noteq> [] \<and> includes_str black (toLowerCase ul (arow ! j))
           then chess_put
                  \<lparr> ptype = toLowerCase ul (arow ! j),
                    color = (if includes_str white (arow ! j) then str ''w'' else str ''b'') \<rparr>
                  (plus_number (index_str cols (int j)) (8 - int i))
                  b
           else b)
      else b)"
  by pat_completeness auto
termination
  by (relation "measure (\<lambda>(ul, arow, i, j, b). length arow - j)") auto

function loadArray_rows ::
  "(jsstring \<Rightarrow> jsstring) \<Rightarrow> jsstring list list \<Rightarrow> nat \<Rightarrow> position \<Rightarrow> position"
  where
  "loadArray_rows ul array i b =
     (if i < length array
      then loadArray_rows ul array (i + 1) (loadArray_cols ul (array ! i) i 0 b)
      else b)"
  by pat_completeness auto
termination
  by (relation "measure (\<lambda>(ul, array, i, b). length array - i)") auto

declare loadArray_cols.simps [simp del] loadArray_rows.simps [simp del]

definition loadArray ::
  "(jsstring \<Rightarrow> jsstring) \<Rightarrow> jsstring list list \<Rightarrow> renderer \<Rightarrow> renderer" where
  "loadArray ul array r =
     r\<lparr>chess := loadArray_rows ul array 0 chess_clear, ready := True\<rparr>"

section \<open>Highlights\<close>

definition setHighlightedSquares :: "jsobject option \<Rightarrow> renderer \<Rightarrow> renderer" where
  "setHighlightedSquares squares r = r\<lparr>highlightedSquares := squares\<rparr>"

text \<open>
  \<open>highlightedSquares\<close> is \<open>None\<close> when the field holds \<^verbatim>\<open>undefined\<close> or \<^verbatim>\<open>null\<close>,
  otherwise the ordinary object it holds. The argument is a string or \<^verbatim>\<open>NaN\<close>;
  \<^verbatim>\<open>!square\<close> holds of \<^verbatim>\<open>NaN\<close> and of the empty string. The result \<open>None\<close> is
  \<^verbatim>\<open>null\<close>.
\<close>

definition getSquareHighlight :: "renderer \<Rightarrow> strnum \<Rightarrow> jsstring option" where
  "getSquareHighlight r square =
     (case highlightedSquares r of
        None \<Rightarrow> None
      | Some obj \<Rightarrow>
          (case square of
             NaN \<Rightarrow> None
           | Text name \<Rightarrow>
               if name = [] then None
               else (case get_property obj name of
                       None \<Rightarrow> None
                     | Some squareHighlight \<Rightarrow>
                         if \<not> truthy squareHighlight then None
                         else (case squareHighlight of
                                 JString s \<Rightarrow> Some s
                               | _ \<Rightarrow> Some (highlight r)))))"

section \<open>Rendering\<close>

text \<open>
  The canvas is the sequence of drawing calls made on it. A fill or a text call
  carries the \<^verbatim>\<open>fillStyle\<close> assigned just before it; the font is set once.
\<close>

datatype draw_op =
    is_FillRect: FillRect jsstring rat rat rat rat
  | is_SetFont: SetFont rat
  | is_FillText: FillText jsstring jsstring rat rat
  | is_DrawImage: DrawImage jsstring rat rat rat rat

text \<open>
  The rasterizer is outside the source: \<open>measureText\<close> answers, for the font size and
  a text, the ascent and the width; \<open>loadImage\<close> says whether the sprite file loads.
\<close>

record text_metrics =
  actualBoundingBoxAscent :: rat
  width :: rat

record rasterizer =
  measureText :: "rat \<Rightarrow> jsstring \<Rightarrow> text_metrics"
  loadImage :: "jsstring \<Rightarrow> bool"

definition fontSize :: "renderer \<Rightarrow> rat" where
  "fontSize r = size_px r / 8 / 10"

definition textPadding :: "renderer \<Rightarrow> rat" where
  "textPadding r = fontSize r * (1 / 2)"

definition cell_x :: "renderer \<Rightarrow> nat \<Rightarrow> rat" where
  "cell_x r j = (size_px r / 8) * of_nat j"

definition cell_y :: "renderer \<Rightarrow> nat \<Rightarrow> rat" where
  "cell_y r i = (size_px r / 8) * (7 - of_nat i)"

definition cell_width :: "renderer \<Rightarrow> rat" where
  "cell_width r = size_px r / 8"

definition cell_height :: "renderer \<Rightarrow> rat" where
  "cell_height r = size_px r / 8"

text \<open>The five blocks of the loop body, in the order of the source.\<close>

definition fill_dark_square :: "renderer \<Rightarrow> nat \<Rightarrow> nat \<Rightarrow> draw_op list" where
  "fill_dark_square r i j =
     (if (i + j) mod 2 = 0
      then [FillRect (dark r) (cell_x r j) (cell_y r i) (cell_width r) (cell_height r)]
      else [])"

definition draw_row_number :: "rasterizer \<Rightarrow> renderer \<Rightarrow> nat \<Rightarrow> nat \<Rightarrow> draw_op list" where
  "draw_row_number rast r i j =
     (if drawLabels r \<and> j = 0 then
        (let text = number_toString (row r (int i));
             letterHeight = actualBoundingBoxAscent (measureText rast (fontSize r) text)
         in [FillText (if i mod 2 = 0 then labelDark r else labelLight r)
               text
               (cell_x r j + textPadding r)
               (cell_y r i + letterHeight + textPadding r)])
      else [])"

definition draw_column_letter :: "rasterizer \<Rightarrow> renderer \<Rightarrow> nat \<Rightarrow> nat \<Rightarrow> draw_op list" where
  "draw_column_letter rast r i j =
     (if drawLabels r \<and> i = 0 then
        (let text = coerce (col r (int j));
             letterWidth = width (measureText rast (fontSize r) text)
         in [FillText (if j mod 2 = 0 then labelDark r else labelLight r)
               text
               (cell_x r j + cell_width r - letterWidth - textPadding r)
               (cell_y r i + cell_height r - textPadding r)])
      else [])"

definition highlight_square :: "renderer \<Rightarrow> nat \<Rightarrow> nat \<Rightarrow> draw_op list" where
  "highlight_square r i j =
     (case getSquareHighlight r (square_of r i j) of
        None \<Rightarrow> []
      | Some h \<Rightarrow>
          if h = [] then []
          else [FillRect h (cell_x r j) (cell_y r i) (cell_width r) (cell_height r)])"

definition draw_piece ::
  "config \<Rightarrow> rasterizer \<Rightarrow> (jsstring \<Rightarrow> jsstring) \<Rightarrow> renderer \<Rightarrow> nat \<Rightarrow> nat
     \<Rightarrow> error + draw_op list" where
  "draw_piece cfg rast ul r i j =
     (case chess_get (chess r) (square_of r i j) of
        None \<Rightarrow> Inr []
      | Some p \<Rightarrow>
          if ptype p \<noteq> [] \<and> includes_str black (toLowerCase ul (ptype p)) then
            (let image = str ''resources/'' @ style r @ str ''/''
                         @ coerce (filePaths cfg (color p @ ptype p)) @ str ''.png''
             in if loadImage rast image
                then Inr [DrawImage image (cell_x r j) (cell_y r i)
                            (cell_width r) (cell_height r)]
                else Inl (AssetNotFound image))
          else Inr [])"

definition draw_cell ::
  "config \<Rightarrow> rasterizer \<Rightarrow> (jsstring \<Rightarrow> jsstring) \<Rightarrow> renderer \<Rightarrow> nat \<Rightarrow> nat
     \<Rightarrow> draw_op list \<Rightarrow> error + draw_op list"
  where
  "draw_cell cfg rast ul r i j canvas =
     (case draw_piece cfg rast ul r i j of
        Inl e \<Rightarrow> Inl e
      | Inr sprite \<Rightarrow>
          Inr (canvas @ fill_dark_square r i j @ draw_row_number rast r i j
                 @ draw_column_letter rast r i j @ highlight_square r i j @ sprite))"

function generateBuffer_cols ::
  "config \<Rightarrow> rasterizer \<Rightarrow> (jsstring \<Rightarrow> jsstring) \<Rightarrow> renderer \<Rightarrow> nat \<Rightarrow> nat
     \<Rightarrow> draw_op list \<Rightarrow> error + draw_op list"
  where
  "generateBuffer_cols cfg rast ul r i j canvas =
     (if j < 8 then
        (case draw_cell cfg rast ul r i j canvas of
           Inl e \<Rightarrow> Inl e
         | Inr canvas' \<Rightarrow> generateBuffer_cols cfg rast ul r i (j + 1) canvas')
      else Inr canvas)"
  by pat_completeness auto
termination
  by (relation "measure (\<lambda>(cfg, rast, ul, r, i, j, canvas). 8 - j)") auto

function generateBuffer_rows ::
  "config \<Rightarrow> rasterizer \<Rightarrow> (jsstring \<Rightarrow> jsstring) \<Rightarrow> renderer \<Rightarrow> nat
     \<Rightarrow> draw_op list \<Rightarrow> error + draw_op list"
  where
  "generateBuffer_rows cfg rast ul r i canvas =
     (if i < 8 then
        (case generateBuffer_cols cfg rast ul r i 0 canvas of
           Inl e \<Rightarrow> Inl e
         | Inr canvas' \<Rightarrow> generateBuffer_rows cfg rast ul r (i + 1) canvas')
      else Inr canvas)"
  by pat_completeness auto
termination
  by (relation "measure (\<lambda>(cfg, rast, ul, r, i, canvas). 8 - i)") auto

declare generateBuffer_cols.simps [simp del] generateBuffer_rows.simps [simp del]

text \<open>
  \<^verbatim>\<open>generateBuffer\<close>. The buffer returned is the encoding of the finished canvas by
  \<^verbatim>\<open>toBuffer\<close>, which is outside the source; the model returns the canvas.
\<close>

definition generateBuffer ::
  "config \<Rightarrow> rasterizer \<Rightarrow> (jsstring \<Rightarrow> jsstring) \<Rightarrow> renderer \<Rightarrow> error + draw_op list"
  where
  "generateBuffer cfg rast ul r =
     (if \<not> ready r then Inl NotReady
      else generateBuffer_rows cfg rast ul r 0
             [FillRect (light r) 0 0 (size_px r) (size_px r), SetFont (fontSize r)])"

text \<open>
  \<^verbatim>\<open>generatePNG\<close>: the result is the write handed to \<^verbatim>\<open>fs\<close>, the path with the
  buffer; the file system's own errors arise in its callbacks, after the call.
\<close>

definition generatePNG ::
  "config \<Rightarrow> rasterizer \<Rightarrow> (jsstring \<Rightarrow> jsstring) \<Rightarrow> renderer \<Rightarrow> jsstring
     \<Rightarrow> error + (jsstring \<times> draw_op list)" where
  "generatePNG cfg rast ul r pngPath =
     (if \<not> ready r then Inl NotReady
      else (case generateBuffer cfg rast ul r of
              Inl e \<Rightarrow> Inl e
            | Inr buffer \<Rightarrow> Inr (pngPath, buffer)))"

text \<open>
  The drawing calls of one cell when its sprite (if any) loads, and the cells in the
  order of the two loops.
\<close>

definition cell_ops ::
  "config \<Rightarrow> rasterizer \<Rightarrow> (jsstring \<Rightarrow> jsstring) \<Rightarrow> renderer \<Rightarrow> nat \<Rightarrow> nat
     \<Rightarrow> draw_op list" where
  "cell_ops cfg rast ul r i j =
     fill_dark_square r i j @ draw_row_number rast r i j @ draw_column_letter rast r i j
     @ highlight_square r i j
     @ (case draw_piece cfg rast ul r i j of Inl e \<Rightarrow> [] | Inr sprite \<Rightarrow> sprite)"

section \<open>Sessions of method calls\<close>

text \<open>
  A client's use of one renderer: a sequence of calls of its loading and highlight
  methods. A call that throws is caught by the client, which goes on with the same
  object. \<open>run_calls\<close> returns what each call threw and the renderer at the end.
\<close>

datatype call =
    LoadPGN jsstring
  | LoadFEN jsstring
  | LoadArray "jsstring list list"
  | SetHighlightedSquares "jsobject option"

fun is_load :: "call \<Rightarrow> bool" where
  "is_load (SetHighlightedSquares squares) = False"
| "is_load c = True"

fun do_call ::
  "engine \<Rightarrow> (jsstring \<Rightarrow> jsstring) \<Rightarrow> call \<Rightarrow> renderer \<Rightarrow> error option \<times> renderer"
  where
  "do_call eng ul (LoadPGN pgn) r = loadPGN eng pgn r"
| "do_call eng ul (LoadFEN fen) r = loadFEN eng fen r"
| "do_call eng ul (LoadArray array) r = (None, loadArray ul array r)"
| "do_call eng ul (SetHighlightedSquares squares) r = (None, setHighlightedSquares squares r)"

fun run_calls ::
  "engine \<Rightarrow> (jsstring \<Rightarrow> jsstring) \<Rightarrow> call list \<Rightarrow> renderer
     \<Rightarrow> error option list \<times> renderer" where
  "run_calls eng ul [] r = ([], r)"
| "run_calls eng ul (c # cs) r =
     (let (e, r') = do_call eng ul c r;
          (es, r'') = run_calls eng ul cs r'
      in (e # es, r''))"

text \<open>Some load among the calls returned without throwing.\<close>

definition load_succeeded :: "call list \<Rightarrow> error option list \<Rightarrow> bool" where
  "load_succeeded cs es = list_ex (\<lambda>(c, e). is_load c \<and> e = None) (zip cs es)"

section \<open>Sample objects\<close>

text \<open>
  Concrete objects at which the theorems below are instantiated: the grid of the
  standard starting position, a configuration, a rasterizer that loads every sprite,
  a lower-casing that sends the Kelvin sign to k and keeps every other unit, and an
  engine. The engine knows one FEN text (a lone white king on e1) and, like
  \<^verbatim>\<open>chess.js\<close>, begins \<^verbatim>\<open>load_pgn\<close> by putting the board in the starting position
  before it reads the moves; of the move texts it accepts only the empty one.
\<close>

definition standard_grid :: "jsstring list list" where
  "standard_grid =
     [[str ''r'', str ''n'', str ''b'', str ''q'', str ''k'', str ''b'', str ''n'', str ''r''],
      [str ''p'', str ''p'', str ''p'', str ''p'', str ''p'', str ''p'', str ''p'', str ''p''],
      [[], [], [], [], [], [], [], []],
      [[], [], [], [], [], [], [], []],
      [[], [], [], [], [], [], [], []],
      [[], [], [], [], [], [], [], []],
      [str ''P'', str ''P'', str ''P'', str ''P'', str ''P'', str ''P'', str ''P'', str ''P''],
      [str ''R'', str ''N'', str ''B'', str ''Q'', str ''K'', str ''B'', str ''N'', str ''R'']]"

definition sample_config :: config where
  "sample_config =
     \<lparr> defaultSize = 480,
       defaultLight = str ''rgb(240, 217, 181)'',
       defaultHighlight = str ''rgba(235, 97, 80, 0.8)'',
       defaultDark = str ''rgb(181, 136, 99)'',
       defaultStyle = str ''merida'',
       filePaths = map_of
         [(str ''wp'', str ''WhitePawn''), (str ''wn'', str ''WhiteKnight''), (str ''wb'', str ''WhiteBishop''),
          (str ''wr'', str ''WhiteRook''), (str ''wq'', str ''WhiteQueen''), (str ''wk'', str ''WhiteKing''),
          (str ''bp'', str ''BlackPawn''), (str ''bn'', str ''BlackKnight''), (str ''bb'', str ''BlackBishop''),
          (str ''br'', str ''BlackRook''), (str ''bq'', str ''BlackQueen''), (str ''bk'', str ''BlackKing'')] \<rparr>"

definition sample_rasterizer :: rasterizer where
  "sample_rasterizer =
     \<lparr> measureText =
         (\<lambda>fs text. \<lparr> actualBoundingBoxAscent = fs, width = fs * of_nat (length text) \<rparr>),
       loadImage = (\<lambda>image. True) \<rparr>"

definition sample_lower :: "jsstring \<Rightarrow> jsstring" where
  "sample_lower s = map (\<lambda>c. if c = 8490 then 107 else c) s"

definition sample_engine :: engine where
  "sample_engine =
     \<lparr> new_chess = loadArray_rows sample_lower standard_grid 0 chess_clear,
       load = (\<lambda>fen b.
         if fen = str ''8/8/8/8/8/8/8/4K3 w - - 0 1''
         then (True, chess_put \<lparr> ptype = str ''k'', color = str ''w'' \<rparr> (Text (str ''e1'')) chess_clear)
         else (False, b)),
       load_pgn = (\<lambda>pgn b. (pgn = [], loadArray_rows sample_lower standard_grid 0 chess_clear)) \<rparr>"

definition no_options :: options where
  "no_options =
     \<lparr> opt_size = None, opt_light = None, opt_dark = None, opt_highlight = None,
       opt_style = None, opt_drawLabels = None, opt_labelLight = None,
       opt_labelDark = None, opt_flipped = None \<rparr>"

section \<open>Placing a grid\<close>




lemma number_toString_digit:
  "0 \<le> k \<Longrightarrow> k < 10 \<Longrightarrow> number_toString k = [48 + nat k]"
  by (simp add: number_toString_def digits.simps)

lemma number_toString_neg:
  "k < 0 \<Longrightarrow> number_toString k = 45 # digits (nat (- k))"
  by (simp add: number_toString_def)

lemma index_str_cols:
  "j < 8 \<Longrightarrow> index_str cols (int j) = Some [cols ! j]"
  by (simp add: index_str_def cols_def str_def)

lemma index_str_cols_out:
  "\<not> j < 8 \<Longrightarrow> index_str cols (int j) = None"
  by (simp add: index_str_def cols_def str_def)

lemma cols_nth_inj:
  "j < 8 \<Longrightarrow> j' < 8 \<Longrightarrow> (cols ! j = cols ! j') = (j = j')"
proof -
  have "distinct cols" by (simp add: cols_def str_def)
  moreover have "length cols = 8" by (simp add: cols_def str_def)
  ultimately show "j < 8 \<Longrightarrow> j' < 8 \<Longrightarrow> (cols ! j = cols ! j') = (j = j')"
    by (simp add: nth_eq_iff_index_eq)
qed

lemma rank_text_eq:
  assumes "i0 < 8"
  shows "(number_toString (8 - int i) = number_toString (8 - int i0)) = (i = i0)"
proof (cases "i \<le> 8")
  case True
  then have "number_toString (8 - int i) = [48 + (8 - i)]"
    by (simp add: number_toString_digit nat_diff_distrib')
  moreover from assms have "number_toString (8 - int i0) = [48 + (8 - i0)]"
    by (simp add: number_toString_digit nat_diff_distrib')
  ultimately show ?thesis using True assms by auto
next
  case False
  then have "number_toString (8 - int i) = 45 # digits (nat (- (8 - int i)))"
    by (simp add: number_toString_neg)
  moreover from assms have "number_toString (8 - int i0) = [48 + (8 - i0)]"
    by (simp add: number_toString_digit nat_diff_distrib')
  ultimately show ?thesis using False assms by auto
qed

lemma square_name_eq:
  assumes "j0 < 8" "i0 < 8"
  shows "(plus_number (index_str cols (int j)) (8 - int i)
          = Text (cols ! j0 # number_toString (8 - int i0))) = (j = j0 \<and> i = i0)"
proof (cases "j < 8")
  case True
  then show ?thesis
    using assms by (auto simp add: index_str_cols plus_number_def cols_nth_inj rank_text_eq)
next
  case False
  then show ?thesis
    using assms by (auto simp add: index_str_cols_out plus_number_def)
qed

lemma square_name_eq':
  assumes "j0 < 8" "i0 < 8"
  shows "(Text (cols ! j0 # number_toString (8 - int i0))
          = plus_number (index_str cols (int j)) (8 - int i)) = (j = j0 \<and> i = i0)"
  using square_name_eq [OF assms, of j i]
  by (simp only: eq_commute [of "Text (cols ! j0 # number_toString (8 - int i0))"])

lemma loadArray_cols_get:
  assumes "j0 < 8" "i0 < 8"
  shows "loadArray_cols ul arow i j b (Text (cols ! j0 # number_toString (8 - int i0))) =
     (if i = i0 \<and> j \<le> j0 \<and> j0 < length arow
         \<and> arow ! j0 \<noteq> [] \<and> includes_str black (toLowerCase ul (arow ! j0))
      then Some \<lparr> ptype = toLowerCase ul (arow ! j0),
                  color = (if includes_str white (arow ! j0) then str ''w'' else str ''b'') \<rparr>
      else b (Text (cols ! j0 # number_toString (8 - int i0))))"
proof (induction ul arow i j b rule: loadArray_cols.induct)
  case (1 ul arow i j b)
  show ?case
  proof (cases "j < length arow")
    case True
    let ?sq = "Text (cols ! j0 # number_toString (8 - int i0))"
    let ?b' = "(if arow ! j \<noteq> [] \<and> includes_str black (toLowerCase ul (arow ! j))
           then chess_put
                  \<lparr> ptype = toLowerCase ul (arow ! j),
                    color = (if includes_str white (arow ! j) then str ''w'' else str ''b'') \<rparr>
                  (plus_number (index_str cols (int j)) (8 - int i))
                  b
           else b)"
    have step: "loadArray_cols ul arow i j b ?sq = loadArray_cols ul arow i (j + 1) ?b' ?sq"
      using True by (subst loadArray_cols.simps) simp
    have here: "?b' ?sq =
       (if i = i0 \<and> j = j0 \<and> arow ! j0 \<noteq> [] \<and> includes_str black (toLowerCase ul (arow ! j0))
        then Some \<lparr> ptype = toLowerCase ul (arow ! j0),
                  color = (if includes_str white (arow ! j0) then str ''w'' else str ''b'') \<rparr>
        else b ?sq)"
      using assms by (simp add: chess_put_def square_name_eq')
    show ?thesis
      unfolding step "1.IH" [OF True] here
      using True by (auto simp add: le_Suc_eq Suc_le_eq)
  next
    case False
    then show ?thesis
      by (subst loadArray_cols.simps) auto
  qed
qed

lemma loadArray_rows_get:
  assumes "j0 < 8" "i0 < 8"
  shows "loadArray_rows ul array i b (Text (cols ! j0 # number_toString (8 - int i0))) =
     (if i \<le> i0 \<and> i0 < length array \<and> j0 < length (array ! i0)
         \<and> array ! i0 ! j0 \<noteq> [] \<and> includes_str black (toLowerCase ul (array ! i0 ! j0))
      then Some \<lparr> ptype = toLowerCase ul (array ! i0 ! j0),
                  color = (if includes_str white (array ! i0 ! j0) then str ''w'' else str ''b'') \<rparr>
      else b (Text (cols ! j0 # number_toString (8 - int i0))))"
proof (induction ul array i b rule: loadArray_rows.induct)
  case (1 ul array i b)
  show ?case
  proof (cases "i < length array")
    case True
    have step: "loadArray_rows ul array i b (Text (cols ! j0 # number_toString (8 - int i0)))
        = loadArray_rows ul array (i + 1) (loadArray_cols ul (array ! i) i 0 b)
            (Text (cols ! j0 # number_toString (8 - int i0)))"
      using True by (subst loadArray_rows.simps) simp
    show ?thesis
      unfolding step "1.IH" [OF True] loadArray_cols_get [OF assms]
      using True by (auto simp add: le_Suc_eq Suc_le_eq)
  next
    case False
    then show ?thesis
      by (subst loadArray_rows.simps) auto
  qed
qed

lemma loadArray_cols_dom:
  "loadArray_cols ul arow i j b sq \<noteq> None \<Longrightarrow>
     b sq \<noteq> None \<or>
     (\<exists>j'. j \<le> j' \<and> j' < length arow \<and> arow ! j' \<noteq> []
           \<and> includes_str black (toLowerCase ul (arow ! j'))
           \<and> sq = plus_number (index_str cols (int j')) (8 - int i))"
proof (induction ul arow i j b rule: loadArray_cols.induct)
  case (1 ul arow i j b)
  show ?case
  proof (cases "j < length arow")
    case True
    let ?b' = "(if arow ! j \<noteq> [] \<and> includes_str black (toLowerCase ul (arow ! j))
           then chess_put
                  \<lparr> ptype = toLowerCase ul (arow ! j),
                    color = (if includes_str white (arow ! j) then str ''w'' else str ''b'') \<rparr>
                  (plus_number (index_str cols (int j)) (8 - int i))
                  b
           else b)"
    from "1.prems" True have "loadArray_cols ul arow i (j + 1) ?b' sq \<noteq> None"
      by (subst (asm) loadArray_cols.simps) simp
    from "1.IH" [OF True this]
    show ?thesis
      using True
      apply (auto simp add: chess_put_def split: if_splits)
      apply (metis Suc_leD)+
      done
  next
    case False
    with "1.prems" show ?thesis
      by (subst (asm) loadArray_cols.simps) auto
  qed
qed

lemma loadArray_rows_dom:
  "loadArray_rows ul array i b sq \<noteq> None \<Longrightarrow>
     b sq \<noteq> None \<or>
     (\<exists>i' j'. i \<le> i' \<and> i' < length array \<and> j' < length (array ! i')
           \<and> array ! i' ! j' \<noteq> []
           \<and> includes_str black (toLowerCase ul (array ! i' ! j'))
           \<and> sq = plus_number (index_str cols (int j')) (8 - int i'))"
proof (induction ul array i b rule: loadArray_rows.induct)
  case (1 ul array i b)
  show ?case
  proof (cases "i < length array")
    case True
    from "1.prems" True
    have "loadArray_rows ul array (i + 1) (loadArray_cols ul (array ! i) i 0 b) sq \<noteq> None"
      by (subst (asm) loadArray_rows.simps) simp
    from "1.IH" [OF True this]
    show ?thesis
    proof
      assume "loadArray_cols ul (array ! i) i 0 b sq \<noteq> None"
      from loadArray_cols_dom [OF this] True show ?thesis by auto
    next
      assume "\<exists>i' j'. i + 1 \<le> i' \<and> i' < length array \<and> j' < length (array ! i')
           \<and> array ! i' ! j' \<noteq> []
           \<and> includes_str black (toLowerCase ul (array ! i' ! j'))
           \<and> sq = plus_number (index_str cols (int j')) (8 - int i')"
      then show ?thesis by (metis Suc_eq_plus1 Suc_leD)
    qed
  next
    case False
    with "1.prems" show ?thesis
      by (subst (asm) loadArray_rows.simps) auto
  qed
qed



section \<open>Column letters of the two variants\<close>

text \<open>
  C9. The two variants of \<^verbatim>\<open>generateBuffer\<close> resolve the same column letter for every
  column index and both values of the flag, and so name the same square for every cell.
\<close>

theorem col_variants_agree:
  "index_str cols (col_index r c) = col r c
   \<and> square_of_indexed r i j = square_of r i j"
  by (simp add: col_index_def col_def square_of_indexed_def square_of_def)

section \<open>Flipping and square colours\<close>

lemma square_of_flipped:
  assumes "i < 8" "j < 8"
  shows "square_of (r\<lparr>flipped := True\<rparr>) i j
           = Text (cols ! (7 - j) # number_toString (8 - int i))"
proof -
  from assms have "7 - int j = int (7 - j)" by linarith
  then have "index_str cols (7 - int j) = index_str cols (int (7 - j))"
    by (simp only:)
  also have "\<dots> = Some [cols ! (7 - j)]"
    by (rule index_str_cols) simp
  finally have c: "col (r\<lparr>flipped := True\<rparr>) (int j) = Some [cols ! (7 - j)]"
    by (simp add: col_def)
  have rw: "row (r\<lparr>flipped := True\<rparr>) (int i) = 8 - int i"
    by (simp add: row_def)
  show ?thesis
    by (simp add: square_of_def rw c plus_number_def)
qed

lemma square_of_unflipped:
  assumes "i < 8" "j < 8"
  shows "square_of (r\<lparr>flipped := False\<rparr>) i j
           = Text (cols ! j # number_toString (8 - int (7 - i)))"
proof -
  from assms have e: "int i + 1 = 8 - int (7 - i)" by linarith
  have "row (r\<lparr>flipped := False\<rparr>) (int i) = int i + 1"
    by (simp add: row_def)
  with e have rw: "row (r\<lparr>flipped := False\<rparr>) (int i) = 8 - int (7 - i)"
    by (simp only:)
  from assms have c: "col (r\<lparr>flipped := False\<rparr>) (int j) = Some [cols ! j]"
    by (simp add: col_def index_str_cols)
  show ?thesis
    by (simp only: square_of_def rw c plus_number_def option.case append_Cons append_Nil)
qed

lemma valid_square_eq:
  assumes "j < 8" "i < 8" "j0 < 8" "i0 < 8"
  shows "(cols ! j # number_toString (8 - int i) = cols ! j0 # number_toString (8 - int i0))
         = (j = j0 \<and> i = i0)"
  using square_name_eq [OF assms(3,4), of j i] assms(1)
  by (simp add: index_str_cols plus_number_def)

lemma even_sum_same_parity: "(a + b) mod 2 = (0::nat) \<Longrightarrow> a mod 2 = b mod 2"
  by presburger

text \<open>
  C7. The base fill of a logical square does not depend on the flip flag. For cells of
  the board, the cell that shows under one value of the flag the square that cell
  \<open>(i, j)\<close> shows under the other is exactly cell \<open>(7 - i, 7 - j)\<close>; the two cells have the
  same parity of \<open>i + j\<close>, so one is painted dark exactly when the other is; and the
  pixel origin of the one is the origin of the other turned by 180 degrees about the
  centre of the canvas.
\<close>

theorem flip_preserves_square_colour:
  assumes "i < 8" and "j < 8" and "i' < 8" and "j' < 8"
  shows "(square_of (r\<lparr>flipped := True\<rparr>) i' j' = square_of (r\<lparr>flipped := False\<rparr>) i j)
           = (i' = 7 - i \<and> j' = 7 - j)
         \<and> ((7 - i) + (7 - j)) mod 2 = (i + j) mod 2
         \<and> (fill_dark_square (r\<lparr>flipped := True\<rparr>) (7 - i) (7 - j) = [])
           = (fill_dark_square (r\<lparr>flipped := False\<rparr>) i j = [])
         \<and> cell_x r (7 - j) = size_px r - cell_width r - cell_x r j
         \<and> cell_y r (7 - i) = size_px r - cell_height r - cell_y r i"
proof -
  from assms(1,2) have "(7 - i) + (7 - j) + (i + j) = 14" by linarith
  then have "((7 - i) + (7 - j) + (i + j)) mod 2 = 0" by simp
  then have par: "((7 - i) + (7 - j)) mod 2 = (i + j) mod 2"
    by (rule even_sum_same_parity)
  have "7 - j' < 8" and "7 - i < 8" by simp_all
  from valid_square_eq [OF this(1) assms(3) assms(2) this(2)]
  have "(cols ! (7 - j') # number_toString (8 - int i')
            = cols ! j # number_toString (8 - int (7 - i)))
          = (7 - j' = j \<and> i' = 7 - i)" .
  moreover from assms(2,4) have "(7 - j' = j) = (j' = 7 - j)" by linarith
  ultimately have sq: "(square_of (r\<lparr>flipped := True\<rparr>) i' j' = square_of (r\<lparr>flipped := False\<rparr>) i j)
           = (i' = 7 - i \<and> j' = 7 - j)"
    unfolding square_of_flipped [OF assms(3,4)] square_of_unflipped [OF assms(1,2)]
      strnum.inject
    by blast
  have fd: "(fill_dark_square (r\<lparr>flipped := True\<rparr>) (7 - i) (7 - j) = [])
           = (fill_dark_square (r\<lparr>flipped := False\<rparr>) i j = [])"
    unfolding fill_dark_square_def par by simp
  from assms(2) have ej: "(of_nat (7 - j) :: rat) = 7 - of_nat j"
    by (simp add: of_nat_diff)
  have x: "cell_x r (7 - j) = size_px r - cell_width r - cell_x r j"
    unfolding cell_x_def cell_width_def ej by (simp add: field_simps)
  from assms(1) have ei: "(of_nat (7 - i) :: rat) = 7 - of_nat i"
    by (simp add: of_nat_diff)
  have y: "cell_y r (7 - i) = size_px r - cell_height r - cell_y r i"
    unfolding cell_y_def cell_height_def ei by (simp add: field_simps)
  from sq par fd x y show ?thesis by blast
qed

text \<open>
  Cell \<open>(7, 7)\<close> with the field set and cell \<open>(0, 0)\<close> with the field clear show the same
  square, and both are painted dark.
\<close>

theorem flip_preserves_square_colour_witness:
  "square_of (ChessImageGenerator sample_config sample_engine no_options\<lparr>flipped := True\<rparr>) 7 7
     = square_of (ChessImageGenerator sample_config sample_engine no_options\<lparr>flipped := False\<rparr>) 0 0
   \<and> fill_dark_square (ChessImageGenerator sample_config sample_engine no_options\<lparr>flipped := True\<rparr>) 7 7 \<noteq> []
   \<and> fill_dark_square (ChessImageGenerator sample_config sample_engine no_options\<lparr>flipped := False\<rparr>) 0 0 \<noteq> []"
proof -
  have h0: "(0::nat) < 8" and h7: "(7::nat) < 8" by simp_all
  have "fill_dark_square (ChessImageGenerator sample_config sample_engine no_options\<lparr>flipped := False\<rparr>) 0 0 \<noteq> []"
    by (simp add: fill_dark_square_def)
  with flip_preserves_square_colour [OF h0 h0 h7 h7,
      of "ChessImageGenerator sample_config sample_engine no_options"]
  show ?thesis by simp
qed

section \<open>Highlight resolution\<close>

lemma Object_prototype_two: "Object_prototype [a, b] = None"
  by (simp add: Object_prototype_def str_def)

lemma square_of_board:
  assumes "i < 8" "j < 8"
  shows "\<exists>a b. square_of r i j = Text [a, b]"
proof (cases "flipped r")
  case True
  then have "r\<lparr>flipped := True\<rparr> = r" by simp
  with square_of_flipped [OF assms, of r]
  have "square_of r i j = Text (cols ! (7 - j) # number_toString (8 - int i))" by simp
  moreover from assms have "number_toString (8 - int i) = [48 + nat (8 - int i)]"
    by (intro number_toString_digit) auto
  ultimately show ?thesis by simp
next
  case False
  then have "r\<lparr>flipped := False\<rparr> = r" by simp
  with square_of_unflipped [OF assms, of r]
  have "square_of r i j = Text (cols ! j # number_toString (8 - int (7 - i)))" by simp
  moreover from assms have "number_toString (8 - int (7 - i)) = [48 + nat (8 - int (7 - i))]"
    by (intro number_toString_digit) auto
  ultimately show ?thesis by simp
qed

lemma board_square_not_inherited:
  assumes "i < 8" "j < 8"
  shows "\<exists>name. square_of r i j = Text name \<and> name \<noteq> [] \<and> Object_prototype name = None"
  using square_of_board [OF assms, of r] Object_prototype_two by auto

text \<open>
  C4. \<^verbatim>\<open>getSquareHighlight\<close> returns no highlight when the highlight map is unset,
  when the square is not a key of it (\<^verbatim>\<open>in\<close> finds it neither among the map's own
  properties nor among the inherited ones), or when its value is falsy; for a square
  name (a non-empty string) it returns the value itself when the value is a string
  and the configured highlight colour for any other truthy value. With an empty map
  every square of the board has no highlight; the map \<open>{e4: true}\<close> gives the
  configured colour at e4 and nothing at the other squares of the board;
  \<open>{e4: "#ff0000"}\<close> gives \<open>#ff0000\<close> at e4.
\<close>

theorem getSquareHighlight_resolution:
  "(highlightedSquares r = None \<longrightarrow> getSquareHighlight r square = None)
   \<and> (highlightedSquares r = Some obj \<and> get_property obj name = None
        \<longrightarrow> getSquareHighlight r (Text name) = None)
   \<and> (highlightedSquares r = Some obj \<and> get_property obj name = Some v \<and> \<not> truthy v
        \<longrightarrow> getSquareHighlight r (Text name) = None)
   \<and> (highlightedSquares r = Some obj \<and> name \<noteq> []
        \<and> get_property obj name = Some (JString s) \<and> s \<noteq> []
        \<longrightarrow> getSquareHighlight r (Text name) = Some s)
   \<and> (highlightedSquares r = Some obj \<and> name \<noteq> []
        \<and> get_property obj name = Some v \<and> truthy v \<and> (\<forall>t. v \<noteq> JString t)
        \<longrightarrow> getSquareHighlight r (Text name) = Some (highlight r))
   \<and> (i < 8 \<and> j < 8 \<longrightarrow>
        getSquareHighlight (setHighlightedSquares (Some Map.empty) r) (square_of r i j) = None)
   \<and> getSquareHighlight (setHighlightedSquares (Some [str ''e4'' \<mapsto> JBoolean True]) r)
         (Text (str ''e4''))
       = Some (highlight r)
   \<and> (i < 8 \<and> j < 8 \<and> square_of r i j \<noteq> Text (str ''e4'') \<longrightarrow>
        getSquareHighlight (setHighlightedSquares (Some [str ''e4'' \<mapsto> JBoolean True]) r)
          (square_of r i j)
          = None)
   \<and> getSquareHighlight
         (setHighlightedSquares (Some [str ''e4'' \<mapsto> JString (str ''#ff0000'')]) r)
         (Text (str ''e4''))
       = Some (str ''#ff0000'')"
proof -
  have c1: "highlightedSquares r = None \<longrightarrow> getSquareHighlight r square = None"
    by (simp add: getSquareHighlight_def)
  have c2: "highlightedSquares r = Some obj \<and> get_property obj name = None
        \<longrightarrow> getSquareHighlight r (Text name) = None"
    by (simp add: getSquareHighlight_def)
  have c3: "highlightedSquares r = Some obj \<and> get_property obj name = Some v \<and> \<not> truthy v
        \<longrightarrow> getSquareHighlight r (Text name) = None"
    by (simp add: getSquareHighlight_def)
  have c4: "highlightedSquares r = Some obj \<and> name \<noteq> []
        \<and> get_property obj name = Some (JString s) \<and> s \<noteq> []
        \<longrightarrow> getSquareHighlight r (Text name) = Some s"
    by (simp add: getSquareHighlight_def)
  have c5: "highlightedSquares r = Some obj \<and> name \<noteq> []
        \<and> get_property obj name = Some v \<and> truthy v \<and> (\<forall>t. v \<noteq> JString t)
        \<longrightarrow> getSquareHighlight r (Text name) = Some (highlight r)"
    by (cases v) (simp_all add: getSquareHighlight_def)
  have c6: "i < 8 \<and> j < 8 \<longrightarrow>
        getSquareHighlight (setHighlightedSquares (Some Map.empty) r) (square_of r i j) = None"
  proof
    assume "i < 8 \<and> j < 8"
    then obtain name where "square_of r i j = Text name" "Object_prototype name = None"
      using board_square_not_inherited [of i j r] by blast
    then show "getSquareHighlight (setHighlightedSquares (Some Map.empty) r) (square_of r i j)
        = None"
      by (simp add: getSquareHighlight_def setHighlightedSquares_def get_property_def)
  qed
  have c7: "getSquareHighlight (setHighlightedSquares (Some [str ''e4'' \<mapsto> JBoolean True]) r)
         (Text (str ''e4''))
       = Some (highlight r)"
    by (simp add: getSquareHighlight_def setHighlightedSquares_def get_property_def str_def)
  have c8: "i < 8 \<and> j < 8 \<and> square_of r i j \<noteq> Text (str ''e4'') \<longrightarrow>
        getSquareHighlight (setHighlightedSquares (Some [str ''e4'' \<mapsto> JBoolean True]) r)
          (square_of r i j)
          = None"
  proof
    assume h: "i < 8 \<and> j < 8 \<and> square_of r i j \<noteq> Text (str ''e4'')"
    then obtain name where n: "square_of r i j = Text name" "Object_prototype name = None"
      using board_square_not_inherited [of i j r] by blast
    with h have "name \<noteq> str ''e4''" by simp
    with n show "getSquareHighlight
        (setHighlightedSquares (Some [str ''e4'' \<mapsto> JBoolean True]) r) (square_of r i j)
        = None"
      by (simp add: getSquareHighlight_def setHighlightedSquares_def get_property_def)
  qed
  have c9: "getSquareHighlight
         (setHighlightedSquares (Some [str ''e4'' \<mapsto> JString (str ''#ff0000'')]) r)
         (Text (str ''e4''))
       = Some (str ''#ff0000'')"
    by (simp add: getSquareHighlight_def setHighlightedSquares_def get_property_def str_def)
  from c1 c2 c3 c4 c5 c6 c7 c8 c9 show ?thesis by blast
qed

text \<open>
  A map with a string, \<^verbatim>\<open>true\<close> and \<open>0\<close>: the string at e4, the default colour at d5,
  no highlight at a1 and, off the map, at h8; no highlight with the map unset. With the
  constructor's empty map, no highlight at the square of cell \<open>(0, 0)\<close>, and the default
  colour for the inherited key \<open>constructor\<close>, which is no square.
\<close>

theorem getSquareHighlight_resolution_witness:
  "getSquareHighlight
     (setHighlightedSquares
        (Some [str ''e4'' \<mapsto> JString (str ''#ff0000''), str ''d5'' \<mapsto> JBoolean True,
               str ''a1'' \<mapsto> JNumber 0])
        (ChessImageGenerator sample_config sample_engine no_options)) (Text (str ''e4''))
       = Some (str ''#ff0000'')
   \<and> getSquareHighlight
     (setHighlightedSquares
        (Some [str ''e4'' \<mapsto> JString (str ''#ff0000''), str ''d5'' \<mapsto> JBoolean True,
               str ''a1'' \<mapsto> JNumber 0])
        (ChessImageGenerator sample_config sample_engine no_options)) (Text (str ''d5''))
       = Some (str ''rgba(235, 97, 80, 0.8)'')
   \<and> getSquareHighlight
     (setHighlightedSquares
        (Some [str ''e4'' \<mapsto> JString (str ''#ff0000''), str ''d5'' \<mapsto> JBoolean True,
               str ''a1'' \<mapsto> JNumber 0])
        (ChessImageGenerator sample_config sample_engine no_options)) (Text (str ''a1''))
       = None
   \<and> getSquareHighlight
     (setHighlightedSquares
        (Some [str ''e4'' \<mapsto> JString (str ''#ff0000''), str ''d5'' \<mapsto> JBoolean True,
               str ''a1'' \<mapsto> JNumber 0])
        (ChessImageGenerator sample_config sample_engine no_options)) (Text (str ''h8''))
       = None
   \<and> getSquareHighlight
     (setHighlightedSquares None
        (ChessImageGenerator sample_config sample_engine no_options)) (Text (str ''e4''))
       = None
   \<and> getSquareHighlight
     (setHighlightedSquares (Some Map.empty)
        (ChessImageGenerator sample_config sample_engine no_options))
     (square_of (ChessImageGenerator sample_config sample_engine no_options) 0 0)
       = None
   \<and> getSquareHighlight
     (setHighlightedSquares (Some [str ''e4'' \<mapsto> JBoolean True])
        (ChessImageGenerator sample_config sample_engine no_options))
     (square_of (ChessImageGenerator sample_config sample_engine no_options) 0 0)
       = None
   \<and> getSquareHighlight (ChessImageGenerator sample_config sample_engine no_options)
        (Text (str ''constructor''))
       = Some (str ''rgba(235, 97, 80, 0.8)'')"
proof -
  let ?m = "[str ''e4'' \<mapsto> JString (str ''#ff0000''), str ''d5'' \<mapsto> JBoolean True,
             str ''a1'' \<mapsto> JNumber 0]"
  let ?base = "ChessImageGenerator sample_config sample_engine no_options"
  let ?r = "setHighlightedSquares (Some ?m) ?base"
  have hs: "highlightedSquares ?r = Some ?m"
    by (simp add: setHighlightedSquares_def)
  have hb: "highlightedSquares ?base = Some Map.empty"
    by (simp add: ChessImageGenerator_def Let_def)
  have hl: "highlight ?r = str ''rgba(235, 97, 80, 0.8)''"
    "highlight ?base = str ''rgba(235, 97, 80, 0.8)''"
    by (simp_all add: setHighlightedSquares_def ChessImageGenerator_def sample_config_def
        no_options_def or_string_def Let_def str_def)
  have none: "highlightedSquares (setHighlightedSquares None ?base) = None"
    by (simp add: setHighlightedSquares_def)
  have p: "get_property ?m (str ''e4'') = Some (JString (str ''#ff0000''))"
    "get_property ?m (str ''d5'') = Some (JBoolean True)"
    "get_property ?m (str ''a1'') = Some (JNumber 0)"
    "get_property ?m (str ''h8'') = None"
    "get_property Map.empty (str ''constructor'') = Some JObject"
    by (simp_all add: get_property_def Object_prototype_def str_def)
  have ne: "str ''e4'' \<noteq> []" "str ''d5'' \<noteq> []" "str ''#ff0000'' \<noteq> []"
    "str ''constructor'' \<noteq> []"
    by (simp_all add: str_def)
  have sq: "square_of ?base 0 0 = Text (str ''h8'')"
    by (simp add: square_of_def ChessImageGenerator_def Let_def row_def col_def no_options_def
        index_str_def cols_def plus_number_def number_toString_def digits.simps str_def)
  have sqne: "square_of ?base 0 0 \<noteq> Text (str ''e4'')"
    unfolding sq by (simp add: str_def)
  have "getSquareHighlight ?r (Text (str ''e4'')) = Some (str ''#ff0000'')"
    using getSquareHighlight_resolution [where r = ?r and obj = ?m and name = "str ''e4''"
        and s = "str ''#ff0000''"] hs p ne
    by blast
  moreover have "getSquareHighlight ?r (Text (str ''d5'')) = Some (str ''rgba(235, 97, 80, 0.8)'')"
    using getSquareHighlight_resolution [where r = ?r and obj = ?m and name = "str ''d5''"
        and v = "JBoolean True"] hs p ne hl
    by simp
  moreover have "getSquareHighlight ?r (Text (str ''a1'')) = None"
    using getSquareHighlight_resolution [where r = ?r and obj = ?m and name = "str ''a1''"
        and v = "JNumber 0"] hs p
    by simp
  moreover have "getSquareHighlight ?r (Text (str ''h8'')) = None"
    using getSquareHighlight_resolution [where r = ?r and obj = ?m and name = "str ''h8''"] hs p
    by blast
  moreover have "getSquareHighlight (setHighlightedSquares None ?base) (Text (str ''e4'')) = None"
    using getSquareHighlight_resolution [where r = "setHighlightedSquares None ?base"
        and square = "Text (str ''e4'')"] none
    by blast
  moreover have "getSquareHighlight (setHighlightedSquares (Some Map.empty) ?base)
      (square_of ?base 0 0) = None"
    using getSquareHighlight_resolution [where r = ?base and i = 0 and j = 0]
    by simp
  moreover have "getSquareHighlight (setHighlightedSquares (Some [str ''e4'' \<mapsto> JBoolean True]) ?base)
      (square_of ?base 0 0) = None"
    using getSquareHighlight_resolution [where r = ?base and i = 0 and j = 0] sqne
    by simp
  moreover have "getSquareHighlight ?base (Text (str ''constructor''))
      = Some (str ''rgba(235, 97, 80, 0.8)'')"
    using getSquareHighlight_resolution [where r = ?base and obj = Map.empty
        and name = "str ''constructor''" and v = JObject] hb p ne hl
    by simp
  ultimately show ?thesis by blast
qed

section \<open>Readiness\<close>

lemma do_call_ready:
  "ready (snd (do_call eng ul c r)) = (ready r \<or> (is_load c \<and> fst (do_call eng ul c r) = None))"
  by (cases c)
    (auto simp add: loadPGN_def loadFEN_def loadArray_def setHighlightedSquares_def
      Let_def split: prod.splits)

lemma run_calls_Cons_fst:
  "fst (run_calls eng ul (c # cs) r)
     = fst (do_call eng ul c r) # fst (run_calls eng ul cs (snd (do_call eng ul c r)))"
  by (simp split: prod.splits)

lemma run_calls_Cons_snd:
  "snd (run_calls eng ul (c # cs) r) = snd (run_calls eng ul cs (snd (do_call eng ul c r)))"
  by (simp split: prod.splits)

lemma load_succeeded_Cons:
  "load_succeeded (c # cs) (e # es) = ((is_load c \<and> e = None) \<or> load_succeeded cs es)"
  by (simp add: load_succeeded_def)

lemma run_calls_ready:
  "ready (snd (run_calls eng ul cs r))
     = (ready r \<or> load_succeeded cs (fst (run_calls eng ul cs r)))"
proof (induction cs arbitrary: r)
  case Nil
  show ?case by (simp add: load_succeeded_def)
next
  case (Cons c cs)
  show ?case
    unfolding run_calls_Cons_fst run_calls_Cons_snd load_succeeded_Cons Cons.IH do_call_ready
    by blast
qed

lemma draw_cell_error:
  "draw_cell cfg rast ul r i j canvas = Inl e \<Longrightarrow> e \<noteq> NotReady"
  by (auto simp add: draw_cell_def draw_piece_def Let_def
      split: sum.splits option.splits if_splits)

lemma generateBuffer_cols_error:
  "generateBuffer_cols cfg rast ul r i j canvas = Inl e \<Longrightarrow> e \<noteq> NotReady"
proof (induction cfg rast ul r i j canvas rule: generateBuffer_cols.induct)
  case (1 cfg rast ul r i j canvas)
  show ?case
  proof (cases "j < 8")
    case True
    show ?thesis
    proof (cases "draw_cell cfg rast ul r i j canvas")
      case (Inl e')
      with True "1.prems" have "e = e'"
        by (subst (asm) generateBuffer_cols.simps) simp
      with Inl show ?thesis by (simp add: draw_cell_error)
    next
      case (Inr canvas')
      with True "1.prems" have "generateBuffer_cols cfg rast ul r i (j + 1) canvas' = Inl e"
        by (subst (asm) generateBuffer_cols.simps) simp
      from "1.IH" [OF True Inr this] show ?thesis .
    qed
  next
    case False
    with "1.prems" show ?thesis
      by (subst (asm) generateBuffer_cols.simps) simp
  qed
qed

lemma generateBuffer_rows_error:
  "generateBuffer_rows cfg rast ul r i canvas = Inl e \<Longrightarrow> e \<noteq> NotReady"
proof (induction cfg rast ul r i canvas rule: generateBuffer_rows.induct)
  case (1 cfg rast ul r i canvas)
  show ?case
  proof (cases "i < 8")
    case True
    show ?thesis
    proof (cases "generateBuffer_cols cfg rast ul r i 0 canvas")
      case (Inl e')
      with True "1.prems" have "e = e'"
        by (subst (asm) generateBuffer_rows.simps) simp
      with Inl show ?thesis by (simp add: generateBuffer_cols_error)
    next
      case (Inr canvas')
      with True "1.prems" have "generateBuffer_rows cfg rast ul r (i + 1) canvas' = Inl e"
        by (subst (asm) generateBuffer_rows.simps) simp
      from "1.IH" [OF True Inr this] show ?thesis .
    qed
  next
    case False
    with "1.prems" show ?thesis
      by (subst (asm) generateBuffer_rows.simps) simp
  qed
qed

lemma generateBuffer_NotReady:
  "(generateBuffer cfg rast ul r = Inl NotReady) = (\<not> ready r)"
  using generateBuffer_rows_error [of cfg rast ul r 0 _ NotReady]
  by (auto simp add: generateBuffer_def)

lemma generatePNG_NotReady:
  "(generatePNG cfg rast ul r pngPath = Inl NotReady) = (\<not> ready r)"
  using generateBuffer_NotReady [of cfg rast ul r]
  by (auto simp add: generatePNG_def split: sum.splits)

text \<open>
  C5. For a renderer fresh from the constructor and any sequence of calls of its
  loaders and of \<^verbatim>\<open>setHighlightedSquares\<close>, \<^verbatim>\<open>generateBuffer\<close> fails with
  \<open>NotReady\<close> exactly when no load among the calls has succeeded, and so does
  \<^verbatim>\<open>generatePNG\<close>; a failure returns no canvas and hands no write to the file system.
\<close>

theorem render_needs_successful_load:
  "(generateBuffer cfg rast ul (snd (run_calls eng ul cs (ChessImageGenerator cfg eng opts)))
      = Inl NotReady)
     = (\<not> load_succeeded cs (fst (run_calls eng ul cs (ChessImageGenerator cfg eng opts))))
   \<and> (generatePNG cfg rast ul (snd (run_calls eng ul cs (ChessImageGenerator cfg eng opts))) pngPath
      = Inl NotReady)
     = (\<not> load_succeeded cs (fst (run_calls eng ul cs (ChessImageGenerator cfg eng opts))))"
proof -
  have "\<not> ready (ChessImageGenerator cfg eng opts)"
    by (simp add: ChessImageGenerator_def Let_def)
  then show ?thesis
    by (simp add: generateBuffer_NotReady generatePNG_NotReady run_calls_ready)
qed

section \<open>The canvas as a sequence of cells\<close>

lemma draw_cell_Inr:
  "draw_cell cfg rast ul r i j canvas = Inr canvas' \<Longrightarrow> canvas' = canvas @ cell_ops cfg rast ul r i j"
  by (auto simp add: draw_cell_def cell_ops_def split: sum.splits)

lemma draw_cell_total:
  "draw_piece cfg rast ul r i j = Inr sprite \<Longrightarrow>
     draw_cell cfg rast ul r i j canvas = Inr (canvas @ cell_ops cfg rast ul r i j)"
  by (simp add: draw_cell_def cell_ops_def)

lemma generateBuffer_cols_Inr:
  "generateBuffer_cols cfg rast ul r i j canvas = Inr canvas' \<Longrightarrow>
     canvas' = canvas @ concat (map (cell_ops cfg rast ul r i) [j..<8])"
proof (induction cfg rast ul r i j canvas rule: generateBuffer_cols.induct)
  case (1 cfg rast ul r i j canvas)
  show ?case
  proof (cases "j < 8")
    case True
    show ?thesis
    proof (cases "draw_cell cfg rast ul r i j canvas")
      case (Inl e)
      with True "1.prems" show ?thesis
        by (subst (asm) generateBuffer_cols.simps) simp
    next
      case (Inr c1)
      with True "1.prems" have "generateBuffer_cols cfg rast ul r i (j + 1) c1 = Inr canvas'"
        by (subst (asm) generateBuffer_cols.simps) simp
      from "1.IH" [OF True Inr this]
      have "canvas' = c1 @ concat (map (cell_ops cfg rast ul r i) [j + 1..<8])" .
      moreover from Inr have "c1 = canvas @ cell_ops cfg rast ul r i j"
        by (rule draw_cell_Inr)
      moreover from True have "[j..<8] = j # [j + 1..<8]"
        by (simp add: upt_conv_Cons)
      ultimately show ?thesis by simp
    qed
  next
    case False
    with "1.prems" show ?thesis
      by (subst (asm) generateBuffer_cols.simps) simp
  qed
qed

lemma generateBuffer_rows_Inr:
  "generateBuffer_rows cfg rast ul r i canvas = Inr canvas' \<Longrightarrow>
     canvas' = canvas
       @ concat (map (\<lambda>i'. concat (map (cell_ops cfg rast ul r i') [0..<8])) [i..<8])"
proof (induction cfg rast ul r i canvas rule: generateBuffer_rows.induct)
  case (1 cfg rast ul r i canvas)
  show ?case
  proof (cases "i < 8")
    case True
    show ?thesis
    proof (cases "generateBuffer_cols cfg rast ul r i 0 canvas")
      case (Inl e)
      with True "1.prems" show ?thesis
        by (subst (asm) generateBuffer_rows.simps) simp
    next
      case (Inr c1)
      with True "1.prems" have "generateBuffer_rows cfg rast ul r (i + 1) c1 = Inr canvas'"
        by (subst (asm) generateBuffer_rows.simps) simp
      from "1.IH" [OF True Inr this]
      have "canvas' = c1
        @ concat (map (\<lambda>i'. concat (map (cell_ops cfg rast ul r i') [0..<8])) [i + 1..<8])" .
      moreover from Inr have "c1 = canvas @ concat (map (cell_ops cfg rast ul r i) [0..<8])"
        by (rule generateBuffer_cols_Inr)
      moreover from True have "[i..<8] = i # [i + 1..<8]"
        by (simp add: upt_conv_Cons)
      ultimately show ?thesis by simp
    qed
  next
    case False
    with "1.prems" show ?thesis
      by (subst (asm) generateBuffer_rows.simps) simp
  qed
qed

lemma generateBuffer_Inr:
  assumes "generateBuffer cfg rast ul r = Inr canvas"
  shows "canvas = [FillRect (light r) 0 0 (size_px r) (size_px r), SetFont (fontSize r)]
           @ concat (map (\<lambda>i. concat (map (cell_ops cfg rast ul r i) [0..<8])) [0..<8])"
proof -
  from assms have "generateBuffer_rows cfg rast ul r 0
      [FillRect (light r) 0 0 (size_px r) (size_px r), SetFont (fontSize r)] = Inr canvas"
    by (simp add: generateBuffer_def split: if_splits)
  then show ?thesis by (rule generateBuffer_rows_Inr)
qed

lemma generateBuffer_cols_total:
  "\<forall>j'. \<exists>sprite. draw_piece cfg rast ul r i j' = Inr sprite \<Longrightarrow>
     \<exists>canvas'. generateBuffer_cols cfg rast ul r i j canvas = Inr canvas'"
proof (induction cfg rast ul r i j canvas rule: generateBuffer_cols.induct)
  case (1 cfg rast ul r i j canvas)
  show ?case
  proof (cases "j < 8")
    case True
    from "1.prems" obtain sprite where "draw_piece cfg rast ul r i j = Inr sprite" by blast
    then have c: "draw_cell cfg rast ul r i j canvas = Inr (canvas @ cell_ops cfg rast ul r i j)"
      by (rule draw_cell_total)
    from "1.IH" [OF True c "1.prems"] obtain canvas'
      where "generateBuffer_cols cfg rast ul r i (j + 1) (canvas @ cell_ops cfg rast ul r i j)
               = Inr canvas'" by blast
    with True c show ?thesis
      by (subst generateBuffer_cols.simps) simp
  next
    case False
    then show ?thesis
      by (subst generateBuffer_cols.simps) simp
  qed
qed

lemma generateBuffer_rows_total:
  "\<forall>i' j'. \<exists>sprite. draw_piece cfg rast ul r i' j' = Inr sprite \<Longrightarrow>
     \<exists>canvas'. generateBuffer_rows cfg rast ul r i canvas = Inr canvas'"
proof (induction cfg rast ul r i canvas rule: generateBuffer_rows.induct)
  case (1 cfg rast ul r i canvas)
  show ?case
  proof (cases "i < 8")
    case True
    from "1.prems" have "\<forall>j'. \<exists>sprite. draw_piece cfg rast ul r i j' = Inr sprite" by blast
    from generateBuffer_cols_total [OF this] obtain c1
      where c: "generateBuffer_cols cfg rast ul r i 0 canvas = Inr c1" by blast
    from "1.IH" [OF True c "1.prems"] obtain canvas'
      where "generateBuffer_rows cfg rast ul r (i + 1) c1 = Inr canvas'" by blast
    with True c show ?thesis
      by (subst generateBuffer_rows.simps) simp
  next
    case False
    then show ?thesis
      by (subst generateBuffer_rows.simps) simp
  qed
qed

lemma generateBuffer_total:
  assumes "ready r" and "\<forall>i' j'. \<exists>sprite. draw_piece cfg rast ul r i' j' = Inr sprite"
  shows "\<exists>canvas. generateBuffer cfg rast ul r = Inr canvas"
  using assms(1) generateBuffer_rows_total [OF assms(2)]
  by (simp add: generateBuffer_def)

lemma draw_piece_loads:
  "\<forall>image. loadImage rast image \<Longrightarrow> \<exists>sprite. draw_piece cfg rast ul r i j = Inr sprite"
  by (simp add: draw_piece_def Let_def split: option.splits)

lemma filter_FillRect_cell_ops:
  "filter is_FillRect (cell_ops cfg rast ul r i j) = fill_dark_square r i j @ highlight_square r i j"
  by (simp add: cell_ops_def fill_dark_square_def draw_row_number_def draw_column_letter_def
      highlight_square_def draw_piece_def Let_def split: option.splits sum.splits)

lemma filter_FillText_cell_ops:
  "filter is_FillText (cell_ops cfg rast ul r i j)
     = draw_row_number rast r i j @ draw_column_letter rast r i j"
  by (simp add: cell_ops_def fill_dark_square_def draw_row_number_def draw_column_letter_def
      highlight_square_def draw_piece_def Let_def split: option.splits sum.splits)

lemma filter_DrawImage_cell_ops:
  "filter is_DrawImage (cell_ops cfg rast ul r i j)
     = (case draw_piece cfg rast ul r i j of Inl e \<Rightarrow> [] | Inr sprite \<Rightarrow> sprite)"
  by (simp add: cell_ops_def fill_dark_square_def draw_row_number_def draw_column_letter_def
      highlight_square_def draw_piece_def Let_def split: option.splits sum.splits)

lemma filter_cells:
  "filter P (concat (map (\<lambda>i. concat (map (f i) js)) is))
     = concat (map (\<lambda>i. concat (map (\<lambda>j. filter P (f i j)) js)) is)"
  by (simp add: filter_concat comp_def)

section \<open>Square fills\<close>

text \<open>
  C2. When \<^verbatim>\<open>generateBuffer\<close> returns a canvas, its first drawing call fills the whole
  \<open>size \<times> size\<close> square with the light colour, and the rectangle fills that follow
  are, cell by cell in loop order, one fill with the dark colour for each cell with
  \<open>i + j\<close> even, and after it the highlight fill of the cell if it has one. With no
  highlights the dark cells are the only fills after the first, so no light cell is
  filled again. The dark fill of a cell is the same whatever the flip flag.
\<close>

theorem generateBuffer_square_fills:
  assumes "generateBuffer cfg rast ul r = Inr canvas"
  shows "hd canvas = FillRect (light r) 0 0 (size_px r) (size_px r)
         \<and> filter is_FillRect canvas =
             FillRect (light r) 0 0 (size_px r) (size_px r)
             # concat (map (\<lambda>i. concat (map (\<lambda>j.
                 (if (i + j) mod 2 = 0
                  then [FillRect (dark r) (cell_x r j) (cell_y r i)
                          (cell_width r) (cell_height r)]
                  else [])
                 @ highlight_square r i j) [0..<8])) [0..<8])
         \<and> (highlightedSquares r = Some Map.empty \<longrightarrow>
              filter is_FillRect canvas =
                FillRect (light r) 0 0 (size_px r) (size_px r)
                # concat (map (\<lambda>i. concat (map (\<lambda>j.
                    (if (i + j) mod 2 = 0
                     then [FillRect (dark r) (cell_x r j) (cell_y r i)
                             (cell_width r) (cell_height r)]
                     else [])) [0..<8])) [0..<8]))
         \<and> fill_dark_square (r\<lparr>flipped := f\<rparr>) i j = fill_dark_square r i j"
proof -
  note c = generateBuffer_Inr [OF assms]
  have a: "hd canvas = FillRect (light r) 0 0 (size_px r) (size_px r)"
    by (subst c) simp
  have b: "filter is_FillRect canvas =
             FillRect (light r) 0 0 (size_px r) (size_px r)
             # concat (map (\<lambda>i. concat (map (\<lambda>j.
                 (if (i + j) mod 2 = 0
                  then [FillRect (dark r) (cell_x r j) (cell_y r i)
                          (cell_width r) (cell_height r)]
                  else [])
                 @ highlight_square r i j) [0..<8])) [0..<8])"
    by (subst c) (simp only: filter_append filter_cells filter_FillRect_cell_ops
        fill_dark_square_def filter.simps draw_op.disc if_True if_False append_Cons append_Nil)
  have h: "highlight_square r i' j' = []"
    if "highlightedSquares r = Some Map.empty" and "i' < 8" and "j' < 8" for i' j'
  proof -
    from that(2,3) obtain name
      where "square_of r i' j' = Text name" and "Object_prototype name = None"
      using board_square_not_inherited [of i' j' r] by blast
    with that(1) show ?thesis
      by (simp add: highlight_square_def getSquareHighlight_def get_property_def)
  qed
  have e: "concat (map (\<lambda>i. concat (map (\<lambda>j.
                 (if (i + j) mod 2 = 0
                  then [FillRect (dark r) (cell_x r j) (cell_y r i)
                          (cell_width r) (cell_height r)]
                  else [])
                 @ highlight_square r i j) [0..<8])) [0..<8])
         = concat (map (\<lambda>i. concat (map (\<lambda>j.
                 (if (i + j) mod 2 = 0
                  then [FillRect (dark r) (cell_x r j) (cell_y r i)
                          (cell_width r) (cell_height r)]
                  else [])) [0..<8])) [0..<8])"
    if "highlightedSquares r = Some Map.empty"
    apply (rule arg_cong [where f = concat])
    apply (rule map_cong [OF refl])
    apply (rule arg_cong [where f = concat])
    apply (rule map_cong [OF refl])
    apply (simp add: h [OF that])
    done
  have d: "fill_dark_square (r\<lparr>flipped := f\<rparr>) i j = fill_dark_square r i j"
    by (simp add: fill_dark_square_def cell_x_def cell_y_def cell_width_def cell_height_def)
  from a b d e show ?thesis
    by simp
qed

lemma sample_render_total:
  "\<exists>canvas. generateBuffer sample_config sample_rasterizer sample_lower
      (loadArray sample_lower standard_grid (ChessImageGenerator sample_config sample_engine no_options))
      = Inr canvas"
proof (rule generateBuffer_total)
  show "ready (loadArray sample_lower standard_grid (ChessImageGenerator sample_config sample_engine no_options))"
    by (simp add: loadArray_def)
  have "\<forall>image. loadImage sample_rasterizer image"
    by (simp add: sample_rasterizer_def)
  then show "\<forall>i' j'. \<exists>sprite. draw_piece sample_config sample_rasterizer sample_lower
      (loadArray sample_lower standard_grid (ChessImageGenerator sample_config sample_engine no_options)) i' j'
      = Inr sprite"
    by (simp add: draw_piece_loads)
qed

lemma sample_renderer_fields:
  "light (loadArray sample_lower standard_grid (ChessImageGenerator sample_config sample_engine no_options))
     = str ''rgb(240, 217, 181)''"
  "dark (loadArray sample_lower standard_grid (ChessImageGenerator sample_config sample_engine no_options))
     = str ''rgb(181, 136, 99)''"
  "size_px (loadArray sample_lower standard_grid (ChessImageGenerator sample_config sample_engine no_options))
     = 480"
  "drawLabels (loadArray sample_lower standard_grid (ChessImageGenerator sample_config sample_engine no_options))"
  "flipped (loadArray sample_lower standard_grid (ChessImageGenerator sample_config sample_engine no_options))"
  "labelLight (loadArray sample_lower standard_grid (ChessImageGenerator sample_config sample_engine no_options))
     = str ''rgb(181, 136, 99)''"
  "labelDark (loadArray sample_lower standard_grid (ChessImageGenerator sample_config sample_engine no_options))
     = str ''rgb(240, 217, 181)''"
  "highlightedSquares (loadArray sample_lower standard_grid (ChessImageGenerator sample_config sample_engine no_options))
     = Some Map.empty"
  by (simp_all add: loadArray_def ChessImageGenerator_def sample_config_def no_options_def
      or_string_def or_number_def Let_def)

text \<open>
  The starting position under the sample configuration renders: the first call is the
  light fill of the 480 pixel square, and there are 33 fills, the base and the 32 dark
  cells.
\<close>

theorem generateBuffer_square_fills_witness:
  "\<exists>canvas. generateBuffer sample_config sample_rasterizer sample_lower
      (loadArray sample_lower standard_grid (ChessImageGenerator sample_config sample_engine no_options))
      = Inr canvas
    \<and> hd canvas = FillRect (str ''rgb(240, 217, 181)'') 0 0 480 480
    \<and> length (filter is_FillRect canvas) = 33"
proof -
  from sample_render_total obtain canvas
    where c: "generateBuffer sample_config sample_rasterizer sample_lower
      (loadArray sample_lower standard_grid (ChessImageGenerator sample_config sample_engine no_options))
      = Inr canvas" by blast
  let ?r = "loadArray sample_lower standard_grid (ChessImageGenerator sample_config sample_engine no_options)"
  from generateBuffer_square_fills [OF c, of False 0 0] sample_renderer_fields(8)
  have h: "hd canvas = FillRect (light ?r) 0 0 (size_px ?r) (size_px ?r)"
    and f: "filter is_FillRect canvas =
                FillRect (light ?r) 0 0 (size_px ?r) (size_px ?r)
                # concat (map (\<lambda>i. concat (map (\<lambda>j.
                    (if (i + j) mod 2 = 0
                     then [FillRect (dark ?r) (cell_x ?r j) (cell_y ?r i)
                             (cell_width ?r) (cell_height ?r)]
                     else [])) [0..<8])) [0..<8])"
    by blast+
  from h have "hd canvas = FillRect (str ''rgb(240, 217, 181)'') 0 0 480 480"
    by (simp add: sample_renderer_fields)
  moreover have "length (filter is_FillRect canvas) = 33"
    unfolding f by (simp add: upt_rec [of _ 8] upt_rec [of _ "Suc _"])
  ultimately have "hd canvas = FillRect (str ''rgb(240, 217, 181)'') 0 0 480 480"
    and "length (filter is_FillRect canvas) = 33" by simp_all
  with c show ?thesis by blast
qed

section \<open>Labels\<close>

text \<open>
  C8. When \<^verbatim>\<open>generateBuffer\<close> returns a canvas, its text calls are none if labels are
  off; if labels are on they are, cell by cell in loop order, a rank label in the cells
  with \<open>j = 0\<close> and a file label in the cells with \<open>i = 0\<close>. The rank label is the
  number \<open>row(i)\<close> and the file label the letter \<open>col(j)\<close>, the two parts of the name
  of the square the cell shows, after the orientation transform; the rank label is in
  \<open>labelDark\<close> when \<open>i\<close> is even and \<open>labelLight\<close> when odd, the file label likewise
  by \<open>j\<close>. When the options leave them out, \<open>labelLight\<close> is the dark square colour
  and \<open>labelDark\<close> the light one.
\<close>

theorem generateBuffer_labels:
  assumes "generateBuffer cfg rast ul r = Inr canvas"
  shows "filter is_FillText canvas =
           (if drawLabels r then
              concat (map (\<lambda>i. concat (map (\<lambda>j.
                (if j = 0 then
                   [FillText (if i mod 2 = 0 then labelDark r else labelLight r)
                      (number_toString (row r (int i)))
                      (cell_x r j + textPadding r)
                      (cell_y r i
                         + actualBoundingBoxAscent
                             (measureText rast (fontSize r) (number_toString (row r (int i))))
                         + textPadding r)]
                 else [])
                @ (if i = 0 then
                     [FillText (if j mod 2 = 0 then labelDark r else labelLight r)
                        (coerce (col r (int j)))
                        (cell_x r j + cell_width r
                           - width (measureText rast (fontSize r) (coerce (col r (int j))))
                           - textPadding r)
                        (cell_y r i + cell_height r - textPadding r)]
                   else [])) [0..<8])) [0..<8])
            else [])
         \<and> square_of r i j =
             (case col r (int j) of
                None \<Rightarrow> NaN
              | Some letter \<Rightarrow> Text (letter @ number_toString (row r (int i))))
         \<and> row r (int i) = (if flipped r then 8 - int i else int i + 1)
         \<and> col r (int j) = (if flipped r then index_str cols (7 - int j) else index_str cols (int j))
         \<and> labelLight (ChessImageGenerator cfg eng (opts\<lparr>opt_labelLight := None\<rparr>))
             = dark (ChessImageGenerator cfg eng (opts\<lparr>opt_labelLight := None\<rparr>))
         \<and> labelDark (ChessImageGenerator cfg eng (opts\<lparr>opt_labelDark := None\<rparr>))
             = light (ChessImageGenerator cfg eng (opts\<lparr>opt_labelDark := None\<rparr>))"
proof -
  note c = generateBuffer_Inr [OF assms]
  have cell: "draw_row_number rast r i' j' @ draw_column_letter rast r i' j' =
     (if drawLabels r then
                (if j' = 0 then
                   [FillText (if i' mod 2 = 0 then labelDark r else labelLight r)
                      (number_toString (row r (int i')))
                      (cell_x r j' + textPadding r)
                      (cell_y r i'
                         + actualBoundingBoxAscent
                             (measureText rast (fontSize r) (number_toString (row r (int i'))))
                         + textPadding r)]
                 else [])
                @ (if i' = 0 then
                     [FillText (if j' mod 2 = 0 then labelDark r else labelLight r)
                        (coerce (col r (int j')))
                        (cell_x r j' + cell_width r
                           - width (measureText rast (fontSize r) (coerce (col r (int j'))))
                           - textPadding r)
                        (cell_y r i' + cell_height r - textPadding r)]
                   else [])
      else [])" for i' j'
    by (simp add: draw_row_number_def draw_column_letter_def Let_def)
  have a: "filter is_FillText canvas =
      concat (map (\<lambda>i. concat (map (\<lambda>j.
         draw_row_number rast r i j @ draw_column_letter rast r i j) [0..<8])) [0..<8])"
    by (subst c) (simp only: filter_append filter_cells filter_FillText_cell_ops
        filter.simps draw_op.disc if_True if_False append_Cons append_Nil)
  have b: "filter is_FillText canvas =
           (if drawLabels r then
              concat (map (\<lambda>i. concat (map (\<lambda>j.
                (if j = 0 then
                   [FillText (if i mod 2 = 0 then labelDark r else labelLight r)
                      (number_toString (row r (int i)))
                      (cell_x r j + textPadding r)
                      (cell_y r i
                         + actualBoundingBoxAscent
                             (measureText rast (fontSize r) (number_toString (row r (int i))))
                         + textPadding r)]
                 else [])
                @ (if i = 0 then
                     [FillText (if j mod 2 = 0 then labelDark r else labelLight r)
                        (coerce (col r (int j)))
                        (cell_x r j + cell_width r
                           - width (measureText rast (fontSize r) (coerce (col r (int j))))
                           - textPadding r)
                        (cell_y r i + cell_height r - textPadding r)]
                   else [])) [0..<8])) [0..<8])
            else [])"
    unfolding a cell by simp
  have d: "square_of r i j =
             (case col r (int j) of
                None \<Rightarrow> NaN
              | Some letter \<Rightarrow> Text (letter @ number_toString (row r (int i))))"
    by (simp add: square_of_def plus_number_def)
  have e: "row r (int i) = (if flipped r then 8 - int i else int i + 1)"
    by (simp add: row_def)
  have f: "col r (int j) = (if flipped r then index_str cols (7 - int j) else index_str cols (int j))"
    by (simp add: col_def)
  have g: "labelLight (ChessImageGenerator cfg eng (opts\<lparr>opt_labelLight := None\<rparr>))
             = dark (ChessImageGenerator cfg eng (opts\<lparr>opt_labelLight := None\<rparr>))"
    by (simp add: ChessImageGenerator_def Let_def or_string_def)
  have h: "labelDark (ChessImageGenerator cfg eng (opts\<lparr>opt_labelDark := None\<rparr>))
             = light (ChessImageGenerator cfg eng (opts\<lparr>opt_labelDark := None\<rparr>))"
    by (simp add: ChessImageGenerator_def Let_def or_string_def)
  from b d e f g h show ?thesis by blast
qed

text \<open>
  The starting position under the sample configuration has 16 labels; the first is the
  rank label of cell \<open>(0, 0)\<close>, in the light colour.
\<close>

theorem generateBuffer_labels_witness:
  "\<exists>canvas. generateBuffer sample_config sample_rasterizer sample_lower
      (loadArray sample_lower standard_grid (ChessImageGenerator sample_config sample_engine no_options))
      = Inr canvas
    \<and> length (filter is_FillText canvas) = 16
    \<and> hd (filter is_FillText canvas) = FillText (str ''rgb(240, 217, 181)'') (str ''8'') 3 429"
proof -
  let ?r = "loadArray sample_lower standard_grid (ChessImageGenerator sample_config sample_engine no_options)"
  from sample_render_total obtain canvas
    where c: "generateBuffer sample_config sample_rasterizer sample_lower ?r = Inr canvas" by blast
  from generateBuffer_labels [OF c, of 0 0 sample_engine no_options]
    sample_renderer_fields(4)
  have f: "filter is_FillText canvas =
              concat (map (\<lambda>i. concat (map (\<lambda>j.
                (if j = 0 then
                   [FillText (if i mod 2 = 0 then labelDark ?r else labelLight ?r)
                      (number_toString (row ?r (int i)))
                      (cell_x ?r j + textPadding ?r)
                      (cell_y ?r i
                         + actualBoundingBoxAscent
                             (measureText sample_rasterizer (fontSize ?r) (number_toString (row ?r (int i))))
                         + textPadding ?r)]
                 else [])
                @ (if i = 0 then
                     [FillText (if j mod 2 = 0 then labelDark ?r else labelLight ?r)
                        (coerce (col ?r (int j)))
                        (cell_x ?r j + cell_width ?r
                           - width (measureText sample_rasterizer (fontSize ?r) (coerce (col ?r (int j))))
                           - textPadding ?r)
                        (cell_y ?r i + cell_height ?r - textPadding ?r)]
                   else [])) [0..<8])) [0..<8])"
    by simp
  have "length (filter is_FillText canvas) = 16"
    unfolding f by (simp add: upt_rec [of _ 8] upt_rec [of _ "Suc _"])
  moreover have "hd (filter is_FillText canvas) = FillText (str ''rgb(240, 217, 181)'') (str ''8'') 3 429"
    unfolding f
    by (simp add: upt_rec [of 0 8] sample_renderer_fields row_def number_toString_def
        digits.simps cell_x_def cell_y_def textPadding_def fontSize_def sample_rasterizer_def
        str_def)
  ultimately show ?thesis using c by blast
qed

section \<open>Rendering after loadArray\<close>

lemma loadArray_rows_empty:
  assumes "\<forall>i<length array. \<forall>j<length (array ! i).
             array ! i ! j = [] \<or> \<not> includes_str black (toLowerCase ul (array ! i ! j))"
  shows "loadArray_rows ul array 0 chess_clear sq = None"
proof (rule ccontr)
  assume "loadArray_rows ul array 0 chess_clear sq \<noteq> None"
  from loadArray_rows_dom [OF this] assms show False
    by (auto simp add: chess_clear_def)
qed

lemma draw_piece_empty_board:
  "chess r = chess_clear \<Longrightarrow> draw_piece cfg rast ul r i j = Inr []"
  by (simp add: draw_piece_def chess_get_def chess_clear_def)

lemma concat_map_Nil: "concat (map (\<lambda>i. concat (map (\<lambda>j. []) js)) is) = []"
  by simp

lemma getSquareHighlight_cong:
  "highlightedSquares r' = highlightedSquares r \<Longrightarrow> highlight r' = highlight r \<Longrightarrow>
     getSquareHighlight r' sq = getSquareHighlight r sq"
  by (simp add: getSquareHighlight_def split: option.splits strnum.splits jsval.splits)

lemma loadArray_keeps_fields:
  "light (loadArray ul array r) = light r"
  "size_px (loadArray ul array r) = size_px r"
  "fontSize (loadArray ul array r) = fontSize r"
  "textPadding (loadArray ul array r) = textPadding r"
  "cell_x (loadArray ul array r) j = cell_x r j"
  "cell_y (loadArray ul array r) i = cell_y r i"
  "cell_width (loadArray ul array r) = cell_width r"
  "cell_height (loadArray ul array r) = cell_height r"
  "row (loadArray ul array r) k = row r k"
  "col (loadArray ul array r) k = col r k"
  "square_of (loadArray ul array r) i j = square_of r i j"
  "getSquareHighlight (loadArray ul array r) sq = getSquareHighlight r sq"
proof -
  show "getSquareHighlight (loadArray ul array r) sq = getSquareHighlight r sq"
    by (rule getSquareHighlight_cong) (simp_all add: loadArray_def)
qed (simp_all add: loadArray_def fontSize_def textPadding_def cell_x_def cell_y_def
      cell_width_def cell_height_def row_def col_def square_of_def)

lemma loadArray_keeps:
  "light (loadArray ul array r) = light r"
  "size_px (loadArray ul array r) = size_px r"
  "fontSize (loadArray ul array r) = fontSize r"
  "fill_dark_square (loadArray ul array r) i j = fill_dark_square r i j"
  "draw_row_number rast (loadArray ul array r) i j = draw_row_number rast r i j"
  "draw_column_letter rast (loadArray ul array r) i j = draw_column_letter rast r i j"
  "highlight_square (loadArray ul array r) i j = highlight_square r i j"
proof -
  show "light (loadArray ul array r) = light r"
    and "size_px (loadArray ul array r) = size_px r"
    and "fontSize (loadArray ul array r) = fontSize r"
    by (simp_all add: loadArray_keeps_fields)
  show "fill_dark_square (loadArray ul array r) i j = fill_dark_square r i j"
    unfolding fill_dark_square_def loadArray_keeps_fields by (simp add: loadArray_def)
  show "draw_row_number rast (loadArray ul array r) i j = draw_row_number rast r i j"
    unfolding draw_row_number_def loadArray_keeps_fields by (simp add: loadArray_def)
  show "draw_column_letter rast (loadArray ul array r) i j = draw_column_letter rast r i j"
    unfolding draw_column_letter_def loadArray_keeps_fields by (simp add: loadArray_def)
  show "highlight_square (loadArray ul array r) i j = highlight_square r i j"
    unfolding highlight_square_def loadArray_keeps_fields by simp
qed

lemma board_blocks:
  "fill_dark_square r i j @ draw_row_number rast r i j @ draw_column_letter rast r i j
     @ highlight_square r i j =
   (if (i + j) mod 2 = 0
    then [FillRect (dark r) (cell_x r j) (cell_y r i) (cell_width r) (cell_height r)]
    else [])
   @ (if drawLabels r \<and> j = 0 then
        [FillText (if i mod 2 = 0 then labelDark r else labelLight r)
           (number_toString (row r (int i)))
           (cell_x r j + textPadding r)
           (cell_y r i
              + actualBoundingBoxAscent
                  (measureText rast (fontSize r) (number_toString (row r (int i))))
              + textPadding r)]
      else [])
   @ (if drawLabels r \<and> i = 0 then
        [FillText (if j mod 2 = 0 then labelDark r else labelLight r)
           (coerce (col r (int j)))
           (cell_x r j + cell_width r
              - width (measureText rast (fontSize r) (coerce (col r (int j))))
              - textPadding r)
           (cell_y r i + cell_height r - textPadding r)]
      else [])
   @ (case getSquareHighlight r (square_of r i j) of
        None \<Rightarrow> []
      | Some h \<Rightarrow>
          if h = [] then []
          else [FillRect h (cell_x r j) (cell_y r i) (cell_width r) (cell_height r)])"
  by (simp add: fill_dark_square_def draw_row_number_def draw_column_letter_def
      highlight_square_def Let_def)

text \<open>
  C10. \<^verbatim>\<open>loadArray\<close> marks the renderer ready for every grid, so
  \<^verbatim>\<open>generateBuffer\<close> after it does not fail with \<open>NotReady\<close>; and for a grid with no
  recognized piece character (the empty array among them) \<^verbatim>\<open>generateBuffer\<close> returns
  the board without pieces: the canvas is the light fill of the whole square and the
  font, then for each of the 64 cells in loop order its dark fill if \<open>i + j\<close> is even,
  its rank and file labels and its highlight fill, and no sprite anywhere.
\<close>

theorem loadArray_always_ready:
  "ready (loadArray ul array r)
   \<and> generateBuffer cfg rast ul (loadArray ul array r) \<noteq> Inl NotReady
   \<and> ((\<forall>i<length array. \<forall>j<length (array ! i).
          array ! i ! j = [] \<or> \<not> includes_str black (toLowerCase ul (array ! i ! j)))
       \<longrightarrow> (\<exists>canvas. generateBuffer cfg rast ul (loadArray ul array r) = Inr canvas
                \<and> filter is_DrawImage canvas = []
                \<and> canvas =
                    [FillRect (light r) 0 0 (size_px r) (size_px r), SetFont (fontSize r)]
                    @ concat (map (\<lambda>i. concat (map (\<lambda>j.
                        (if (i + j) mod 2 = 0
                         then [FillRect (dark r) (cell_x r j) (cell_y r i)
                                 (cell_width r) (cell_height r)]
                         else [])
                        @ (if drawLabels r \<and> j = 0 then
                             [FillText (if i mod 2 = 0 then labelDark r else labelLight r)
                                (number_toString (row r (int i)))
                                (cell_x r j + textPadding r)
                                (cell_y r i
                                   + actualBoundingBoxAscent
                                       (measureText rast (fontSize r)
                                          (number_toString (row r (int i))))
                                   + textPadding r)]
                           else [])
                        @ (if drawLabels r \<and> i = 0 then
                             [FillText (if j mod 2 = 0 then labelDark r else labelLight r)
                                (coerce (col r (int j)))
                                (cell_x r j + cell_width r
                                   - width (measureText rast (fontSize r)
                                              (coerce (col r (int j))))
                                   - textPadding r)
                                (cell_y r i + cell_height r - textPadding r)]
                           else [])
                        @ (case getSquareHighlight r (square_of r i j) of
                             None \<Rightarrow> []
                           | Some h \<Rightarrow>
                               if h = [] then []
                               else [FillRect h (cell_x r j) (cell_y r i)
                                       (cell_width r) (cell_height r)]))
                        [0..<8])) [0..<8])))"
proof -
  have rdy: "ready (loadArray ul array r)"
    by (simp add: loadArray_def)
  then have nr: "generateBuffer cfg rast ul (loadArray ul array r) \<noteq> Inl NotReady"
    by (simp add: generateBuffer_NotReady)
  have "\<exists>canvas. generateBuffer cfg rast ul (loadArray ul array r) = Inr canvas
                \<and> filter is_DrawImage canvas = []
                \<and> canvas =
                    [FillRect (light r) 0 0 (size_px r) (size_px r), SetFont (fontSize r)]
                    @ concat (map (\<lambda>i. concat (map (\<lambda>j.
                        (if (i + j) mod 2 = 0
                         then [FillRect (dark r) (cell_x r j) (cell_y r i)
                                 (cell_width r) (cell_height r)]
                         else [])
                        @ (if drawLabels r \<and> j = 0 then
                             [FillText (if i mod 2 = 0 then labelDark r else labelLight r)
                                (number_toString (row r (int i)))
                                (cell_x r j + textPadding r)
                                (cell_y r i
                                   + actualBoundingBoxAscent
                                       (measureText rast (fontSize r)
                                          (number_toString (row r (int i))))
                                   + textPadding r)]
                           else [])
                        @ (if drawLabels r \<and> i = 0 then
                             [FillText (if j mod 2 = 0 then labelDark r else labelLight r)
                                (coerce (col r (int j)))
                                (cell_x r j + cell_width r
                                   - width (measureText rast (fontSize r)
                                              (coerce (col r (int j))))
                                   - textPadding r)
                                (cell_y r i + cell_height r - textPadding r)]
                           else [])
                        @ (case getSquareHighlight r (square_of r i j) of
                             None \<Rightarrow> []
                           | Some h \<Rightarrow>
                               if h = [] then []
                               else [FillRect h (cell_x r j) (cell_y r i)
                                       (cell_width r) (cell_height r)]))
                        [0..<8])) [0..<8])"
    if h: "\<forall>i<length array. \<forall>j<length (array ! i).
          array ! i ! j = [] \<or> \<not> includes_str black (toLowerCase ul (array ! i ! j))"
  proof -
    have "chess (loadArray ul array r) = chess_clear"
      using loadArray_rows_empty [OF h]
      by (auto simp add: loadArray_def chess_clear_def)
    then have dp: "draw_piece cfg rast ul (loadArray ul array r) i' j' = Inr []" for i' j'
      by (rule draw_piece_empty_board)
    then have "\<forall>i' j'. \<exists>sprite. draw_piece cfg rast ul (loadArray ul array r) i' j' = Inr sprite"
      by blast
    from generateBuffer_total [OF rdy this] obtain canvas
      where c: "generateBuffer cfg rast ul (loadArray ul array r) = Inr canvas" by blast
    have cell: "cell_ops cfg rast ul (loadArray ul array r) i' =
        (\<lambda>j'. fill_dark_square r i' j' @ draw_row_number rast r i' j'
          @ draw_column_letter rast r i' j' @ highlight_square r i' j')" for i'
      by (rule ext) (simp add: cell_ops_def dp loadArray_keeps)
    have noimg: "filter is_DrawImage canvas = []"
      by (subst generateBuffer_Inr [OF c])
        (simp only: filter_append filter_cells filter_DrawImage_cell_ops dp sum.case
          concat_map_Nil filter.simps draw_op.disc if_False append_Nil)
    have "canvas =
        [FillRect (light r) 0 0 (size_px r) (size_px r), SetFont (fontSize r)]
        @ concat (map (\<lambda>i. concat (map (\<lambda>j.
            fill_dark_square r i j @ draw_row_number rast r i j
              @ draw_column_letter rast r i j @ highlight_square r i j) [0..<8])) [0..<8])"
      by (subst generateBuffer_Inr [OF c]) (simp only: cell loadArray_keeps)
    with c noimg show ?thesis
      by (simp only: board_blocks) blast
  qed
  with rdy nr show ?thesis by blast
qed

text \<open>
  The empty array and a row of a blank, an unknown letter and an empty string both
  render: no sprite, and the canvas begins with the light fill of the 480 pixel square
  and the font of size 6.
\<close>

theorem loadArray_always_ready_witness:
  "(\<exists>canvas. generateBuffer sample_config sample_rasterizer sample_lower
       (loadArray sample_lower []
          (ChessImageGenerator sample_config sample_engine no_options)) = Inr canvas
     \<and> filter is_DrawImage canvas = []
     \<and> take 2 canvas = [FillRect (str ''rgb(240, 217, 181)'') 0 0 480 480, SetFont 6])
   \<and> (\<exists>canvas. generateBuffer sample_config sample_rasterizer sample_lower
       (loadArray sample_lower [[str '' '', str ''x'', []]]
          (ChessImageGenerator sample_config sample_engine no_options)) = Inr canvas
     \<and> filter is_DrawImage canvas = []
     \<and> take 2 canvas = [FillRect (str ''rgb(240, 217, 181)'') 0 0 480 480, SetFont 6])"
proof -
  let ?base = "ChessImageGenerator sample_config sample_engine no_options"
  have a: "\<forall>i<length ([] :: jsstring list list). \<forall>j<length ([] ! i).
          [] ! i ! j = [] \<or> \<not> includes_str black (toLowerCase sample_lower ([] ! i ! j))"
    by simp
  have b: "\<forall>i<length [[str '' '', str ''x'', []]]. \<forall>j<length ([[str '' '', str ''x'', []]] ! i).
          [[str '' '', str ''x'', []]] ! i ! j = []
          \<or> \<not> includes_str black (toLowerCase sample_lower ([[str '' '', str ''x'', []]] ! i ! j))"
    by (simp add: less_Suc_eq toLowerCase_def toLowerCase_ascii_def black_def
        numeral_3_eq_3 all_conj_distrib str_def)
  have f: "light ?base = str ''rgb(240, 217, 181)''" "size_px ?base = 480" "fontSize ?base = 6"
    by (simp_all add: ChessImageGenerator_def sample_config_def no_options_def
        or_string_def or_number_def Let_def fontSize_def str_def)
  from a loadArray_always_ready [of sample_lower "[]" ?base sample_config sample_rasterizer]
  obtain c1 where c1: "generateBuffer sample_config sample_rasterizer sample_lower
       (loadArray sample_lower [] ?base) = Inr c1" "filter is_DrawImage c1 = []"
       "take 2 c1 = [FillRect (light ?base) 0 0 (size_px ?base) (size_px ?base),
                     SetFont (fontSize ?base)]"
    by auto
  from b loadArray_always_ready [of sample_lower "[[str '' '', str ''x'', []]]" ?base
      sample_config sample_rasterizer]
  obtain c2 where c2: "generateBuffer sample_config sample_rasterizer sample_lower
       (loadArray sample_lower [[str '' '', str ''x'', []]] ?base) = Inr c2"
       "filter is_DrawImage c2 = []"
       "take 2 c2 = [FillRect (light ?base) 0 0 (size_px ?base) (size_px ?base),
                     SetFont (fontSize ?base)]"
    by auto
  from c1 c2 show ?thesis
    unfolding f by blast
qed

section \<open>Rejected notation\<close>

text \<open>
  C6. When the engine rejects the text, \<^verbatim>\<open>loadPGN\<close> and \<^verbatim>\<open>loadFEN\<close> fail with
  \<open>InvalidNotation\<close> and leave the ready flag and every other field of the renderer as
  they were; the position afterwards is the one the engine's own call left, which is
  the old position exactly when the engine leaves it alone on rejection. When the
  engine accepts the text the renderer is marked ready.
\<close>

theorem rejected_load_keeps_ready_flag:
  "(\<not> fst (load_pgn eng pgn (chess r)) \<longrightarrow>
      loadPGN eng pgn r
        = (Some InvalidNotation, r\<lparr>chess := snd (load_pgn eng pgn (chess r))\<rparr>)
      \<and> ready (snd (loadPGN eng pgn r)) = ready r)
   \<and> (\<not> fst (load_pgn eng pgn (chess r)) \<and> snd (load_pgn eng pgn (chess r)) = chess r \<longrightarrow>
      snd (loadPGN eng pgn r) = r)
   \<and> (fst (load_pgn eng pgn (chess r)) \<longrightarrow>
      loadPGN eng pgn r
        = (None, r\<lparr>chess := snd (load_pgn eng pgn (chess r)), ready := True\<rparr>))
   \<and> (\<not> fst (load eng fen (chess r)) \<longrightarrow>
      loadFEN eng fen r
        = (Some InvalidNotation, r\<lparr>chess := snd (load eng fen (chess r))\<rparr>)
      \<and> ready (snd (loadFEN eng fen r)) = ready r)
   \<and> (\<not> fst (load eng fen (chess r)) \<and> snd (load eng fen (chess r)) = chess r \<longrightarrow>
      snd (loadFEN eng fen r) = r)
   \<and> (fst (load eng fen (chess r)) \<longrightarrow>
      loadFEN eng fen r
        = (None, r\<lparr>chess := snd (load eng fen (chess r)), ready := True\<rparr>))"
  by (auto simp add: loadPGN_def loadFEN_def Let_def split: prod.splits)

lemma sample_start_e8:
  "chess_get (loadArray_rows sample_lower standard_grid 0 chess_clear) (Text (str ''e8''))
     = Some \<lparr> ptype = str ''k'', color = str ''b'' \<rparr>"
proof -
  have n: "cols ! 4 # number_toString (8 - int 0) = str ''e8''"
    by (simp add: cols_def number_toString_def digits.simps str_def)
  have h4: "(4::nat) < 8" and h0: "(0::nat) < 8" by simp_all
  show ?thesis
    using loadArray_rows_get [OF h4 h0, of sample_lower standard_grid 0 chess_clear]
    unfolding n
    by (simp add: chess_get_def standard_grid_def toLowerCase_def toLowerCase_ascii_def
        black_def white_def str_def)
qed

text \<open>
  With the sample engine: a rejected FEN leaves a fresh renderer as it was; the known
  FEN loads and marks it ready; a rejected PGN then fails and the renderer stays ready;
  the empty PGN loads.
\<close>

theorem rejected_load_keeps_ready_flag_witness:
  "loadFEN sample_engine (str ''not a fen'')
       (ChessImageGenerator sample_config sample_engine no_options)
     = (Some InvalidNotation, ChessImageGenerator sample_config sample_engine no_options)
   \<and> fst (loadFEN sample_engine (str ''8/8/8/8/8/8/8/4K3 w - - 0 1'')
       (ChessImageGenerator sample_config sample_engine no_options)) = None
   \<and> ready (snd (loadFEN sample_engine (str ''8/8/8/8/8/8/8/4K3 w - - 0 1'')
       (ChessImageGenerator sample_config sample_engine no_options)))
   \<and> fst (loadPGN sample_engine (str ''1. e9'')
       (snd (loadFEN sample_engine (str ''8/8/8/8/8/8/8/4K3 w - - 0 1'')
          (ChessImageGenerator sample_config sample_engine no_options)))) = Some InvalidNotation
   \<and> ready (snd (loadPGN sample_engine (str ''1. e9'')
       (snd (loadFEN sample_engine (str ''8/8/8/8/8/8/8/4K3 w - - 0 1'')
          (ChessImageGenerator sample_config sample_engine no_options)))))
   \<and> ready (snd (loadPGN sample_engine []
       (ChessImageGenerator sample_config sample_engine no_options)))"
proof -
  let ?new = "ChessImageGenerator sample_config sample_engine no_options"
  let ?fen = "str ''8/8/8/8/8/8/8/4K3 w - - 0 1''"
  let ?loaded = "snd (loadFEN sample_engine ?fen ?new)"
  have bad_fen: "\<not> fst (load sample_engine (str ''not a fen'') (chess ?new))"
    and bad_fen_board: "snd (load sample_engine (str ''not a fen'') (chess ?new)) = chess ?new"
    and good_fen: "fst (load sample_engine ?fen (chess ?new))"
    and bad_pgn: "\<not> fst (load_pgn sample_engine (str ''1. e9'') (chess ?loaded))"
    and good_pgn: "fst (load_pgn sample_engine [] (chess ?new))"
    by (simp_all add: sample_engine_def str_def)
  have "loadFEN sample_engine (str ''not a fen'') ?new = (Some InvalidNotation, ?new)"
    using rejected_load_keeps_ready_flag [of sample_engine "[]" ?new "str ''not a fen''"]
      bad_fen bad_fen_board
    by (simp add: prod_eq_iff)
  moreover have "fst (loadFEN sample_engine ?fen ?new) = None \<and> ready ?loaded"
    using rejected_load_keeps_ready_flag [of sample_engine "[]" ?new ?fen] good_fen
    by simp
  moreover have "fst (loadPGN sample_engine (str ''1. e9'') ?loaded) = Some InvalidNotation
      \<and> ready (snd (loadPGN sample_engine (str ''1. e9'') ?loaded))"
    using rejected_load_keeps_ready_flag [of sample_engine "str ''1. e9''" ?loaded ?fen] bad_pgn
      \<open>fst (loadFEN sample_engine ?fen ?new) = None \<and> ready ?loaded\<close>
    by simp
  moreover have "ready (snd (loadPGN sample_engine [] ?new))"
    using rejected_load_keeps_ready_flag [of sample_engine "[]" ?new ?fen] good_pgn
    by simp
  ultimately show ?thesis by blast
qed

text \<open>
  A ready renderer holding a lone white king is given a PGN the sample engine rejects:
  the call fails with \<open>InvalidNotation\<close>, and e8, empty before the call, now holds the
  black king of the starting position.
\<close>

theorem rejected_load_changes_board_counterexample:
  "ready (snd (loadFEN sample_engine (str ''8/8/8/8/8/8/8/4K3 w - - 0 1'')
       (ChessImageGenerator sample_config sample_engine no_options)))
   \<and> chess_get (chess (snd (loadFEN sample_engine (str ''8/8/8/8/8/8/8/4K3 w - - 0 1'')
       (ChessImageGenerator sample_config sample_engine no_options)))) (Text (str ''e8'')) = None
   \<and> fst (loadPGN sample_engine (str ''1. e9'')
       (snd (loadFEN sample_engine (str ''8/8/8/8/8/8/8/4K3 w - - 0 1'')
          (ChessImageGenerator sample_config sample_engine no_options)))) = Some InvalidNotation
   \<and> chess_get (chess (snd (loadPGN sample_engine (str ''1. e9'')
       (snd (loadFEN sample_engine (str ''8/8/8/8/8/8/8/4K3 w - - 0 1'')
          (ChessImageGenerator sample_config sample_engine no_options)))))) (Text (str ''e8''))
       = Some \<lparr> ptype = str ''k'', color = str ''b'' \<rparr>"
proof -
  have "chess (snd (loadPGN sample_engine (str ''1. e9'')
       (snd (loadFEN sample_engine (str ''8/8/8/8/8/8/8/4K3 w - - 0 1'')
          (ChessImageGenerator sample_config sample_engine no_options)))))
        = loadArray_rows sample_lower standard_grid 0 chess_clear"
    by (simp add: loadPGN_def loadFEN_def sample_engine_def str_def)
  then show ?thesis
    by (simp add: sample_start_e8)
      (simp add: loadPGN_def loadFEN_def sample_engine_def chess_get_def chess_put_def
        chess_clear_def str_def)
qed

section \<open>The flipped option\<close>

lemma lone_king_fields:
  "chess (snd (loadFEN sample_engine (str ''8/8/8/8/8/8/8/4K3 w - - 0 1'')
       (ChessImageGenerator sample_config sample_engine no_options)))
     = chess_put \<lparr> ptype = str ''k'', color = str ''w'' \<rparr> (Text (str ''e1'')) chess_clear"
  "ready (snd (loadFEN sample_engine (str ''8/8/8/8/8/8/8/4K3 w - - 0 1'')
       (ChessImageGenerator sample_config sample_engine no_options)))"
  "flipped (snd (loadFEN sample_engine (str ''8/8/8/8/8/8/8/4K3 w - - 0 1'')
       (ChessImageGenerator sample_config sample_engine no_options)))"
  "size_px (snd (loadFEN sample_engine (str ''8/8/8/8/8/8/8/4K3 w - - 0 1'')
       (ChessImageGenerator sample_config sample_engine no_options))) = 480"
  "style (snd (loadFEN sample_engine (str ''8/8/8/8/8/8/8/4K3 w - - 0 1'')
       (ChessImageGenerator sample_config sample_engine no_options))) = str ''merida''"
  by (simp_all add: loadFEN_def sample_engine_def ChessImageGenerator_def sample_config_def
      no_options_def or_string_def or_number_def Let_def str_def)

lemma lone_king_render:
  "\<exists>canvas. generateBuffer sample_config sample_rasterizer sample_lower
      (snd (loadFEN sample_engine (str ''8/8/8/8/8/8/8/4K3 w - - 0 1'')
         (ChessImageGenerator sample_config sample_engine no_options))) = Inr canvas
     \<and> filter is_DrawImage canvas = [DrawImage (str ''resources/merida/WhiteKing.png'') 180 0 60 60]"
proof -
  let ?r = "snd (loadFEN sample_engine (str ''8/8/8/8/8/8/8/4K3 w - - 0 1'')
         (ChessImageGenerator sample_config sample_engine no_options))"
  have "\<forall>image. loadImage sample_rasterizer image"
    by (simp add: sample_rasterizer_def)
  then have "\<forall>i' j'. \<exists>sprite. draw_piece sample_config sample_rasterizer sample_lower ?r i' j' = Inr sprite"
    by (simp add: draw_piece_loads)
  from generateBuffer_total [OF lone_king_fields(2) this] obtain canvas
    where c: "generateBuffer sample_config sample_rasterizer sample_lower ?r = Inr canvas" by blast
  have sq: "square_of ?r i j = plus_number (index_str cols (7 - int j)) (8 - int i)" for i j
    by (simp add: square_of_def row_def col_def lone_king_fields)
  have fp: "filePaths sample_config (str ''wk'') = Some (str ''WhiteKing'')"
    by (simp add: sample_config_def str_def)
  have lr: "loadImage sample_rasterizer image" for image
    by (simp add: sample_rasterizer_def)
  have cx: "cell_x ?r j = 60 * of_nat j" and cy: "cell_y ?r i = 60 * (7 - of_nat i)" for i j
    by (simp_all add: cell_x_def cell_y_def lone_king_fields)
  have dp: "draw_piece sample_config sample_rasterizer sample_lower ?r i j =
      (if plus_number (index_str cols (7 - int j)) (8 - int i) = Text (str ''e1'')
       then Inr [DrawImage (str ''resources/merida/WhiteKing.png'') (60 * of_nat j) (60 * (7 - of_nat i)) 60 60]
       else Inr [])" for i j
    unfolding draw_piece_def sq cx cy lone_king_fields cell_width_def cell_height_def
    by (simp add: fp [unfolded str_def, simplified] lr chess_get_def chess_put_def chess_clear_def
        toLowerCase_def toLowerCase_ascii_def black_def coerce_def str_def plus_number_def)
  have "filter is_DrawImage canvas = [DrawImage (str ''resources/merida/WhiteKing.png'') 180 0 60 60]"
    apply (subst generateBuffer_Inr [OF c])
    apply (simp only: filter_append filter_cells filter_DrawImage_cell_ops dp
          filter.simps draw_op.disc if_False append_Nil)
    apply (simp add: upt_rec [of _ 8] upt_rec [of _ "Suc _"] index_str_def cols_def coerce_def
        number_toString_def digits.simps str_def plus_number_def)
    done
  with c show ?thesis by blast
qed

text \<open>
  C1. What the constructor and \<^verbatim>\<open>generateBuffer\<close> do with the \<^verbatim>\<open>flipped\<close> option.
  The constructor stores \<^verbatim>\<open>options.flipped !== true\<close>, so a renderer built with the
  option unset or \<^verbatim>\<open>false\<close> has the field set and takes the rotated transform:
  cell \<open>(i, j)\<close> shows file \<open>cols[7 - j]\<close>, rank \<open>8 - i\<close>, and cell \<open>(0, 0)\<close>, drawn
  at the bottom left, shows h8. Only a renderer built with the option \<^verbatim>\<open>true\<close> shows
  file \<open>cols[j]\<close>, rank \<open>i + 1\<close>, with a1 at the bottom left. So a renderer built
  with no options draws the lone white king of e1 in the top row, at \<open>x = 180\<close>,
  \<open>y = 0\<close> of the 480 pixel canvas.
\<close>

theorem unset_flipped_option_rotates:
  "square_of (ChessImageGenerator cfg eng (opts\<lparr>opt_flipped := None\<rparr>)) i j
     = plus_number (index_str cols (7 - int j)) (8 - int i)
   \<and> square_of (ChessImageGenerator cfg eng (opts\<lparr>opt_flipped := Some False\<rparr>)) i j
     = plus_number (index_str cols (7 - int j)) (8 - int i)
   \<and> square_of (ChessImageGenerator cfg eng (opts\<lparr>opt_flipped := Some True\<rparr>)) i j
     = plus_number (index_str cols (int j)) (int i + 1)
   \<and> square_of (ChessImageGenerator cfg eng (opts\<lparr>opt_flipped := None\<rparr>)) 0 0 = Text (str ''h8'')
   \<and> square_of (ChessImageGenerator cfg eng (opts\<lparr>opt_flipped := Some True\<rparr>)) 0 0 = Text (str ''a1'')
   \<and> (\<exists>canvas. generateBuffer sample_config sample_rasterizer sample_lower
          (snd (loadFEN sample_engine (str ''8/8/8/8/8/8/8/4K3 w - - 0 1'')
             (ChessImageGenerator sample_config sample_engine no_options))) = Inr canvas
        \<and> filter is_DrawImage canvas
            = [DrawImage (str ''resources/merida/WhiteKing.png'') 180 0 60 60])"
proof -
  have "square_of (ChessImageGenerator cfg eng (opts\<lparr>opt_flipped := None\<rparr>)) i j
     = plus_number (index_str cols (7 - int j)) (8 - int i)
   \<and> square_of (ChessImageGenerator cfg eng (opts\<lparr>opt_flipped := Some False\<rparr>)) i j
     = plus_number (index_str cols (7 - int j)) (8 - int i)
   \<and> square_of (ChessImageGenerator cfg eng (opts\<lparr>opt_flipped := Some True\<rparr>)) i j
     = plus_number (index_str cols (int j)) (int i + 1)
   \<and> square_of (ChessImageGenerator cfg eng (opts\<lparr>opt_flipped := None\<rparr>)) 0 0 = Text (str ''h8'')
   \<and> square_of (ChessImageGenerator cfg eng (opts\<lparr>opt_flipped := Some True\<rparr>)) 0 0 = Text (str ''a1'')"
    by (simp add: square_of_def ChessImageGenerator_def Let_def row_def col_def
        index_str_def cols_def coerce_def number_toString_def digits.simps str_def
        plus_number_def)
  with lone_king_render show ?thesis by blast
qed

end
